theory Spec2Isabelle
  imports Main
begin

section \<open>JavaScript strings\<close>

text \<open>
  The program is \<^verbatim>\<open>src/bin/etherscan.js\<close>. A JavaScript string is modelled as a
  \<^typ>\<open>string\<close>, each \<^typ>\<open>char\<close> standing for one code unit below 256 (the Latin-1
  range); the texts the program reads (a manifest of file names, hexadecimal addresses,
  page footers) are ASCII.
\<close>

definition is_lower_alnum :: "char \<Rightarrow> bool" where
  \<comment> \<open>the character class \<^verbatim>\<open>[a-z0-9]\<close>\<close>
  "is_lower_alnum c =
     (let n = (of_char c :: nat) in (97 \<le> n \<and> n \<le> 122) \<or> (48 \<le> n \<and> n \<le> 57))"

definition is_lower_hex :: "char \<Rightarrow> bool" where
  \<comment> \<open>the character class \<^verbatim>\<open>[0-9a-f]\<close>\<close>
  "is_lower_hex c =
     (let n = (of_char c :: nat) in (48 \<le> n \<and> n \<le> 57) \<or> (97 \<le> n \<and> n \<le> 102))"

definition is_digit :: "char \<Rightarrow> bool" where
  \<comment> \<open>the character class \<^verbatim>\<open>\d\<close>\<close>
  "is_digit c = (let n = (of_char c :: nat) in 48 \<le> n \<and> n \<le> 57)"

definition is_space :: "char \<Rightarrow> bool" where
  \<comment> \<open>white space and line terminators of ECMAScript below 256: TAB, LF, VT, FF, CR,
      SP and NBSP\<close>
  "is_space c = (of_char c \<in> {9, 10, 11, 12, 13, 32, 160 :: nat})"

definition trim :: "string \<Rightarrow> string" where
  \<comment> \<open>\<^verbatim>\<open>String.prototype.trim\<close>\<close>
  "trim s = rev (dropWhile is_space (rev (dropWhile is_space s)))"

definition slice :: "int \<Rightarrow> int \<Rightarrow> 'a list \<Rightarrow> 'a list" where
  \<comment> \<open>\<^verbatim>\<open>s.slice(start, end)\<close>: a negative index counts from the end, both are
      clamped to the length\<close>
  "slice start stop s =
     (let len = int (length s);
          from = (if start < 0 then max (len + start) 0 else min start len);
          to = (if stop < 0 then max (len + stop) 0 else min stop len)
      in take (nat (to - from)) (drop (nat from) s))"

fun split_nl :: "string \<Rightarrow> string list" where
  \<comment> \<open>\<^verbatim>\<open>text.split('\n')\<close>: the empty text gives one empty line\<close>
  "split_nl [] = [[]]"
| "split_nl (c # cs) =
     (if c = CHR 0x0A then [] # split_nl cs
      else (case split_nl cs of [] \<Rightarrow> [[c]] | l # ls \<Rightarrow> (c # l) # ls))"

fun includes_str :: "string \<Rightarrow> string \<Rightarrow> bool" where
  \<comment> \<open>\<^verbatim>\<open>s.includes(p)\<close>: \<open>p\<close> occurs in \<open>s\<close> as a substring\<close>
  "includes_str [] p = (p = [])"
| "includes_str (c # cs) p = (take (length p) (c # cs) = p \<or> includes_str cs p)"

definition match_trailing_alnum :: "string \<Rightarrow> string option" where
  \<comment> \<open>the capture of \<^verbatim>\<open>s.match(/([a-z0-9]+)$/)\<close>, \<open>None\<close> for \<^verbatim>\<open>null\<close>: the
      leftmost match is the whole run of \<^verbatim>\<open>[a-z0-9]\<close> that ends the string\<close>
  "match_trailing_alnum s =
     (let run = rev (takeWhile is_lower_alnum (rev s))
      in if run = [] then None else Some run)"

definition match_js_file :: "string \<Rightarrow> string option" where
  \<comment> \<open>the capture of \<^verbatim>\<open>line.match(/([a-z0-9]+)\.js$/)\<close>: the string ends in
      \<^verbatim>\<open>.js\<close> and the capture is the run of \<^verbatim>\<open>[a-z0-9]\<close> before it\<close>
  "match_js_file s =
     (if 3 \<le> length s \<and> drop (length s - 3) s = ''.js''
      then match_trailing_alnum (take (length s - 3) s)
      else None)"

section \<open>The compiler-version index\<close>

text \<open>
  \<^verbatim>\<open>soljsonVersionsLoad\<close> (lines 78 to 92) fills an object, keyed by the first six
  characters of the identifier captured at the end of a manifest line. The object is
  a map from keys to strings: a key is at most six characters of \<^verbatim>\<open>[a-z0-9]\<close>, and
  no property inherited from \<^verbatim>\<open>Object.prototype\<close> has such a name.
\<close>

type_synonym versions = "string \<rightharpoonup> string"

definition fingerprint :: "string \<Rightarrow> string option" where
  \<comment> \<open>\<^verbatim>\<open>parsed[1].slice(0, 6)\<close> of a line that matches, \<open>None\<close> for a line that is
      skipped\<close>
  "fingerprint line = map_option (slice 0 6) (match_js_file line)"

definition version_string :: "string \<Rightarrow> string" where
  \<comment> \<open>\<^verbatim>\<open>line.trim().slice(9, -3)\<close>\<close>
  "version_string line = slice 9 (- 3) (trim line)"

definition has_commit :: "versions \<Rightarrow> string \<Rightarrow> bool" where
  \<comment> \<open>\<^verbatim>\<open>soljsonVersions[commit] && soljsonVersions[commit].includes('commit')\<close>: an
      absent entry and the empty string are falsy\<close>
  "has_commit soljsonVersions commit =
     (case soljsonVersions commit of
        None \<Rightarrow> False
      | Some v \<Rightarrow> v \<noteq> [] \<and> includes_str v ''commit'')"

definition soljson_line :: "versions \<Rightarrow> string \<Rightarrow> versions" where
  \<comment> \<open>one iteration of the loop over the lines\<close>
  "soljson_line soljsonVersions line =
     (case fingerprint line of
        None \<Rightarrow> soljsonVersions
      | Some commit \<Rightarrow>
          if has_commit soljsonVersions commit then soljsonVersions
          else soljsonVersions(commit \<mapsto> version_string line))"

definition soljsonVersions_of :: "string \<Rightarrow> versions" where
  \<comment> \<open>the loop of \<^verbatim>\<open>soljsonVersionsLoad\<close> over the fetched text\<close>
  "soljsonVersions_of txt = foldl soljson_line Map.empty (split_nl txt)"

section \<open>More of the JavaScript library\<close>

definition toLowerCase :: "string \<Rightarrow> string" where
  \<comment> \<open>\<^verbatim>\<open>String.prototype.toLowerCase\<close> on code units below 256: the letters A to Z
      and the accented capitals of Latin-1\<close>
  "toLowerCase s =
     map (\<lambda>c. let n = (of_char c :: nat)
              in if (65 \<le> n \<and> n \<le> 90) \<or> (192 \<le> n \<and> n \<le> 222 \<and> n \<noteq> 215)
                 then char_of (n + 32) else c) s"

definition digits_to_nat :: "string \<Rightarrow> nat" where
  \<comment> \<open>the number a string of decimal digits denotes\<close>
  "digits_to_nat ds = foldl (\<lambda>n c. 10 * n + (of_char c - 48)) 0 ds"

fun show_nat :: "nat \<Rightarrow> string" where
  \<comment> \<open>a number in a template literal: its decimal digits\<close>
  "show_nat n =
     (if n < 10 then [char_of (48 + n)]
      else show_nat (n div 10) @ [char_of (48 + n mod 10)])"

declare show_nat.simps [simp del]

text \<open>
  A value that is a boolean or a number: line 109 computes one with \<^verbatim>\<open>&&\<close>. Numbers
  are integers here; \<^verbatim>\<open>parseInt\<close> gives an integer or \<^verbatim>\<open>NaN\<close>.
\<close>

datatype jsvalue = JBool bool | JNumber int | JNaN

fun truthy :: "jsvalue \<Rightarrow> bool" where
  "truthy (JBool b) = b"
| "truthy (JNumber n) = (n \<noteq> 0)"
| "truthy JNaN = False"

definition parseInt :: "string \<Rightarrow> jsvalue" where
  \<comment> \<open>\<^verbatim>\<open>parseInt(s, 10)\<close>: leading white space, a sign, then the longest run of
      decimal digits; \<^verbatim>\<open>NaN\<close> when there is no digit\<close>
  "parseInt s =
     (let t = dropWhile is_space s;
          neg = (take 1 t = ''-'');
          u = (if take 1 t = ''-'' \<or> take 1 t = ''+'' then drop 1 t else t);
          ds = takeWhile is_digit u
      in if ds = [] then JNaN
         else JNumber (if neg then - int (digits_to_nat ds) else int (digits_to_nat ds)))"

definition match_cargs :: "string \<Rightarrow> string option" where
  \<comment> \<open>the capture of \<^verbatim>\<open>cargsHTML.match(/^([0-9a-f]+)</)\<close>: the run of
      \<^verbatim>\<open>[0-9a-f]\<close> that starts the string, when the next character is \<^verbatim>\<open><\<close>\<close>
  "match_cargs s =
     (let run = takeWhile is_lower_hex s
      in if run \<noteq> [] \<and> take 1 (drop (length run) s) = ''<'' then Some run else None)"

definition match_page_here :: "string \<Rightarrow> string option" where
  \<comment> \<open>\<^verbatim>\<open>/Page \d+ of (\d+)/\<close> matched at the start of the string\<close>
  "match_page_here s =
     (let r1 = drop 5 s;
          d1 = takeWhile is_digit r1;
          r2 = drop (length d1) r1;
          d2 = takeWhile is_digit (drop 4 r2)
      in if take 5 s = ''Page '' \<and> d1 \<noteq> [] \<and> take 4 r2 = '' of '' \<and> d2 \<noteq> []
         then Some d2 else None)"

fun match_page_of :: "string \<Rightarrow> string option" where
  \<comment> \<open>the capture of \<^verbatim>\<open>s.match(/Page \d+ of (\d+)/)\<close>: the leftmost match\<close>
  "match_page_of [] = None"
| "match_page_of (c # cs) =
     (case match_page_here (c # cs) of
        Some pages \<Rightarrow> Some pages
      | None \<Rightarrow> match_page_of cs)"

section \<open>Data\<close>

text \<open>
  What the queries of \<^verbatim>\<open>cheerio\<close> give on a page: the texts and the markup that
  \<^verbatim>\<open>fetchAddressEtherscan\<close> and \<^verbatim>\<open>fetchPage\<close> read from it.
\<close>

record detail_doc =
  td_name :: string \<comment> \<open>\<^verbatim>\<open>$($(table[0]).find('td')[1]).text()\<close>\<close>
  td_compiler :: string \<comment> \<open>\<^verbatim>\<open>$($(table[0]).find('td')[3]).text()\<close>\<close>
  td_optimization :: string \<comment> \<open>\<^verbatim>\<open>$($(table[1]).find('td')[1]).text()\<close>\<close>
  td_runs :: string \<comment> \<open>\<^verbatim>\<open>$($(table[1]).find('td')[3]).text()\<close>\<close>
  pre_editor :: string \<comment> \<open>\<^verbatim>\<open>code.find('pre#editor').text()\<close>\<close>
  pre_abi :: string \<comment> \<open>\<^verbatim>\<open>code.find('pre#js-copytextarea2').text()\<close>\<close>
  pre3_html :: "string option"
    \<comment> \<open>\<^verbatim>\<open>$(code.find('pre')[3]).html()\<close>, \<open>None\<close> for \<^verbatim>\<open>null\<close>\<close>

record list_doc =
  row_links :: "string list"
    \<comment> \<open>\<^verbatim>\<open>$(el).find('a').text()\<close> for each row of \<^verbatim>\<open>tbody:nth-child(2) tr\<close>\<close>
  doc_text :: string \<comment> \<open>\<^verbatim>\<open>$.text()\<close>\<close>

record etherscan_info =
  es_name :: string
  es_compiler :: string
  es_optimise :: jsvalue
  es_src :: string
  es_abi :: string
  es_cargs :: string

record blockchair_info =
  bc_txid :: string
  bc_bin :: string

record tx_info =
  tx_address :: string
  tx_bin :: string

record call_row =
  transaction_hash :: string

record calls_result =
  data :: "call_row list"

record contract_info =
  name :: string
  entrypoint :: string
  compiler :: string
  optimise :: jsvalue
  network :: string
  txid :: string
  address :: string
  constructor :: string

record contract =
  src :: "(string \<times> string) list"
  abi :: string
  bin :: string
  info :: contract_info

record response =
  status :: nat
  body :: string

datatype error =
    AssertionError string
  | TypeError string
  | Rejected string \<comment> \<open>a promise of a collaborator that rejects\<close>

section \<open>Effects\<close>

text \<open>
  The program talks to the network, to the contract store and to the ledger lookup, and
  it writes to the console. Each such call is answered by the environment, from a world
  \<open>'w\<close> that the call may change, and is recorded, with its answer, in a trace. The
  modules \<^verbatim>\<open>lib/blockchain\<close>, \<^verbatim>\<open>lib/contract-loader\<close>, \<^verbatim>\<open>lib/compilers-map\<close> and
  \<^verbatim>\<open>lib/etherscan-constructor-arguments\<close> are not part of the source at hand: their
  functions and tables are fields of the environment, as are the queries of
  \<^verbatim>\<open>cheerio\<close> and \<^verbatim>\<open>JSON.parse\<close>. The parsed answer of the ledger-indexing site has
  the shape its interface gives it: an object whose \<^verbatim>\<open>data\<close> is an array of rows.
\<close>

datatype symbol = Info | Success

datatype event =
    HttpGet string "error + response" \<comment> \<open>\<^verbatim>\<open>fetch(url)\<close> and what it gave\<close>
  | ExistsByAddressNetwork string string "error + bool"
  | Save contract "error + bool"
  | GetTxInfo string string "error + tx_info"
  | ConsoleLog symbol string
  | ConsoleError error
  | ProcessExit nat

record 'w env =
  env_fetch :: "string \<Rightarrow> 'w \<Rightarrow> (error + response) \<times> 'w"
  env_existsByAddressNetwork :: "string \<Rightarrow> string \<Rightarrow> 'w \<Rightarrow> (error + bool) \<times> 'w"
  env_save :: "contract \<Rightarrow> 'w \<Rightarrow> (error + bool) \<times> 'w"
  env_getTxInfo :: "string \<Rightarrow> string \<Rightarrow> 'w \<Rightarrow> (error + tx_info) \<times> 'w"
  cheerio_detail :: "string \<Rightarrow> detail_doc"
  cheerio_list :: "string \<Rightarrow> list_doc"
  JSON_parse :: "string \<Rightarrow> error + calls_result"
  compilersMap :: "string \<rightharpoonup> string"
  etherscanConstructorArguments :: "string \<rightharpoonup> string"
  first_rejected :: "'w \<Rightarrow> bool"
    \<comment> \<open>when both promises of \<^verbatim>\<open>Promise.all\<close> reject: whether the first one did so
        before the second\<close>

record 'w state =
  world :: 'w
  trace :: "event list"

text \<open>
  How a computation ends: with a value, with an exception, with \<^verbatim>\<open>process.exit\<close>, or
  not within the number of iterations allowed to the one loop that has no bound
  (\<^verbatim>\<open>fetchPages\<close>).
\<close>

datatype 'a outcome = Ok 'a | Throw error | Exit nat | Running

type_synonym ('w, 'a) prog = "'w state \<Rightarrow> 'a outcome \<times> 'w state"

definition return :: "'a \<Rightarrow> ('w, 'a) prog" where
  "return x st = (Ok x, st)"

definition throw :: "error \<Rightarrow> ('w, 'a) prog" where
  "throw e st = (Throw e, st)"

definition await :: "('w, 'a) prog \<Rightarrow> ('a \<Rightarrow> ('w, 'b) prog) \<Rightarrow> ('w, 'b) prog" where
  \<comment> \<open>run \<open>m\<close>, then the rest of the function with its value; an exception, an exit and
      an exhausted loop end the whole\<close>
  "await m k st =
     (case m st of
        (Ok x, st') \<Rightarrow> k x st'
      | (Throw e, st') \<Rightarrow> (Throw e, st')
      | (Exit c, st') \<Rightarrow> (Exit c, st')
      | (Running, st') \<Rightarrow> (Running, st'))"

definition emit :: "event \<Rightarrow> 'w state \<Rightarrow> 'w state" where
  "emit e st = st\<lparr>trace := trace st @ [e]\<rparr>"

definition call :: "('w \<Rightarrow> (error + 'a) \<times> 'w) \<Rightarrow> ((error + 'a) \<Rightarrow> event) \<Rightarrow> ('w, 'a) prog" where
  \<comment> \<open>a call of a collaborator: the world answers, the trace records the answer, a
      rejection is thrown\<close>
  "call f ev st =
     (let (r, w') = f (world st);
          st' = emit (ev r) (st\<lparr>world := w'\<rparr>)
      in (case r of Inl e \<Rightarrow> (Throw e, st') | Inr x \<Rightarrow> (Ok x, st')))"

definition console_log :: "symbol \<Rightarrow> string \<Rightarrow> ('w, unit) prog" where
  "console_log mark msg st = (Ok (), emit (ConsoleLog mark msg) st)"

definition console_error :: "error \<Rightarrow> ('w, unit) prog" where
  "console_error err st = (Ok (), emit (ConsoleError err) st)"

definition process_exit :: "nat \<Rightarrow> ('w, 'a) prog" where
  "process_exit c st = (Exit c, emit (ProcessExit c) st)"

primrec for_each :: "('a \<Rightarrow> ('w, unit) prog) \<Rightarrow> 'a list \<Rightarrow> ('w, unit) prog" where
  \<comment> \<open>\<^verbatim>\<open>for (const x of xs) await f(x)\<close>\<close>
  "for_each f [] = return ()"
| "for_each f (x # xs) = await (f x) (\<lambda>_. for_each f xs)"

definition promise_all :: "('w \<Rightarrow> bool) \<Rightarrow> ('w, 'a) prog \<Rightarrow> ('w, 'b) prog \<Rightarrow> ('w, 'a \<times> 'b) prog" where
  \<comment> \<open>\<^verbatim>\<open>Promise.all([a, b])\<close>: both run, the calls of \<open>a\<close> recorded before those
      of \<open>b\<close>; it rejects with the rejection that came first\<close>
  "promise_all first pa pb st =
     (case pa st of
        (Exit c, st1) \<Rightarrow> (Exit c, st1)
      | (Running, st1) \<Rightarrow> (Running, st1)
      | (Ok a, st1) \<Rightarrow>
          (case pb st1 of
             (Ok b, st2) \<Rightarrow> (Ok (a, b), st2)
           | (Throw eb, st2) \<Rightarrow> (Throw eb, st2)
           | (Exit c, st2) \<Rightarrow> (Exit c, st2)
           | (Running, st2) \<Rightarrow> (Running, st2))
      | (Throw ea, st1) \<Rightarrow>
          (case pb st1 of
             (Ok b, st2) \<Rightarrow> (Throw ea, st2)
           | (Throw eb, st2) \<Rightarrow> (Throw (if first (world st2) then ea else eb), st2)
           | (Exit c, st2) \<Rightarrow> (Exit c, st2)
           | (Running, st2) \<Rightarrow> (Running, st2)))"

section \<open>Fetching\<close>

definition lift :: "error + 'a \<Rightarrow> ('w, 'a) prog" where
  \<comment> \<open>a step without effect that gives a value or throws\<close>
  "lift x = (case x of Inl e \<Rightarrow> throw e | Inr v \<Rightarrow> return v)"

definition check_status :: "response \<Rightarrow> error + string" where
  \<comment> \<open>lines 55 and 56\<close>
  "check_status res =
     (if status res = 200 then Inr (body res)
      else Inl (AssertionError (show_nat (status res) @ '' == 200'')))"

definition makeReq :: "'w env \<Rightarrow> string \<Rightarrow> ('w, string) prog" where
  \<comment> \<open>lines 53 to 57\<close>
  "makeReq env url =
     await (call (env_fetch env url) (HttpGet url)) (\<lambda>res. lift (check_status res))"

definition fetchText :: "'w env \<Rightarrow> string \<Rightarrow> string option \<Rightarrow> ('w, string) prog" where
  \<comment> \<open>lines 60 to 75; \<open>None\<close> is a call without \<^verbatim>\<open>id\<close>, and the empty string is falsy
      as well. With a key, the request waits for the earlier requests of that key and
      for a second after the last one, and is then made as without a key: time is not
      part of the model, where the wait is not seen.\<close>
  "fetchText env url key =
     (case key of
        None \<Rightarrow> makeReq env url
      | Some k \<Rightarrow> if k = [] then makeReq env url else makeReq env url)"

definition manifest_url :: string where
  "manifest_url = ''https://raw.githubusercontent.com/ethereum/solc-bin/gh-pages/bin/list.txt''"

definition soljsonVersionsLoad :: "'w env \<Rightarrow> ('w, versions) prog" where
  \<comment> \<open>lines 78 to 92\<close>
  "soljsonVersionsLoad env =
     await (fetchText env manifest_url None) (\<lambda>txt. return (soljsonVersions_of txt))"

section \<open>One address\<close>

definition onExistsUpdate :: "('w, unit) prog" where
  \<comment> \<open>lines 94 to 97\<close>
  "onExistsUpdate =
     await (console_log Info ''Existed contract is reached'') (\<lambda>_. process_exit 0)"

definition etherscan_address_url :: "string \<Rightarrow> string" where
  "etherscan_address_url a = ''https://etherscan.io/address/'' @ a"

definition blockchair_calls_url :: "string \<Rightarrow> string" where
  "blockchair_calls_url a =
     ''https://api.blockchair.com/ethereum/calls?q=recipient('' @ a @ ''),type(create)''"

definition cargs_of_html :: "string option \<Rightarrow> error + string" where
  \<comment> \<open>lines 115 to 121: \<^verbatim>\<open>null\<close> and the empty string are falsy\<close>
  "cargs_of_html cargsHTML =
     (case cargsHTML of
        None \<Rightarrow> Inr []
      | Some h \<Rightarrow>
          if h = [] then Inr []
          else (case match_cargs h of
                  None \<Rightarrow> Inl (AssertionError ''Contructor Arguments is not valid'')
                | Some m \<Rightarrow>
                    if length m mod 2 = 0 then Inr m
                    else Inl (AssertionError ''Contructor Arguments is not valid'')))"

definition etherscan_info_of :: "'w env \<Rightarrow> string \<Rightarrow> string \<Rightarrow> error + etherscan_info" where
  \<comment> \<open>lines 102 to 124: what \<^verbatim>\<open>fetchAddressEtherscan\<close> makes of the page it fetched\<close>
  "etherscan_info_of env a html =
     (let doc = cheerio_detail env html;
          optimizationEnabled = (trim (td_optimization doc) = ''Yes'');
          optimizationRuns = parseInt (trim (td_runs doc));
          optimise' = (if optimizationEnabled then optimizationRuns else JBool False)
      in (case cargs_of_html (pre3_html doc) of
            Inl e \<Rightarrow> Inl e
          | Inr cargs \<Rightarrow>
              Inr \<lparr>es_name = trim (td_name doc),
                   es_compiler = trim (td_compiler doc),
                   es_optimise = optimise',
                   es_src = trim (pre_editor doc),
                   es_abi = trim (pre_abi doc),
                   es_cargs =
                     (if cargs \<noteq> [] then cargs
                      else (case etherscanConstructorArguments env a of
                              Some v \<Rightarrow> v
                            | None \<Rightarrow> []))\<rparr>))"

definition fetchAddressEtherscan :: "'w env \<Rightarrow> string \<Rightarrow> ('w, etherscan_info) prog" where
  \<comment> \<open>lines 99 to 125\<close>
  "fetchAddressEtherscan env a =
     await (fetchText env (etherscan_address_url a) (Some ''etherscan'')) (\<lambda>html.
       lift (etherscan_info_of env a html))"

definition txid_of :: "'w env \<Rightarrow> string \<Rightarrow> error + string" where
  \<comment> \<open>lines 129 to 132\<close>
  "txid_of env txt =
     (case JSON_parse env txt of
        Inl e \<Rightarrow> Inl e
      | Inr result \<Rightarrow>
          if length (data result) \<noteq> 1
          then Inl (AssertionError (''Expected not more than 1 rows, received: ''
                                    @ show_nat (length (data result))))
          else Inr (transaction_hash (hd (data result))))"

definition blockchair_info_of :: "string \<Rightarrow> string \<Rightarrow> tx_info \<Rightarrow> error + blockchair_info" where
  \<comment> \<open>lines 134 to 136\<close>
  "blockchair_info_of a txid' txInfo =
     (if tx_address txInfo \<noteq> a
      then Inl (AssertionError (tx_address txInfo @ '' == '' @ a))
      else Inr \<lparr>bc_txid = txid', bc_bin = tx_bin txInfo\<rparr>)"

definition fetchAddressBlockchair :: "'w env \<Rightarrow> string \<Rightarrow> ('w, blockchair_info) prog" where
  \<comment> \<open>lines 127 to 137\<close>
  "fetchAddressBlockchair env a =
     await (fetchText env (blockchair_calls_url a) (Some ''blockchair'')) (\<lambda>txt.
       await (lift (txid_of env txt)) (\<lambda>txid'.
         await (call (env_getTxInfo env ''foundation'' txid')
                  (GetTxInfo ''foundation'' txid')) (\<lambda>txInfo.
           lift (blockchair_info_of a txid' txInfo))))"

record options =
  soljsonVersions :: versions
  update :: bool

definition lookup_version :: "versions \<Rightarrow> (string \<rightharpoonup> string) \<Rightarrow> string \<Rightarrow> string option" where
  \<comment> \<open>line 154, \<open>None\<close> for \<^verbatim>\<open>undefined\<close>: the empty string is falsy, and a mark the
      alias table does not have is looked up as the key \<^verbatim>\<open>undefined\<close>\<close>
  "lookup_version versions aliases compilerMark =
     (let direct = versions compilerMark;
          aliased = versions (case aliases compilerMark of
                                Some k \<Rightarrow> k
                              | None \<Rightarrow> ''undefined'')
      in (case direct of
            Some v \<Rightarrow> if v \<noteq> [] then Some v else aliased
          | None \<Rightarrow> aliased))"

definition make_contract :: "string \<Rightarrow> etherscan_info \<Rightarrow> blockchair_info \<Rightarrow> string \<Rightarrow> contract" where
  \<comment> \<open>lines 157 to 173\<close>
  "make_contract a etherscan blockchair soljsonVersion =
     \<lparr>src = [(es_name etherscan @ ''.sol'', es_src etherscan)],
      abi = es_abi etherscan,
      bin = bc_bin blockchair,
      info = \<lparr>name = es_name etherscan,
               entrypoint = es_name etherscan @ ''.sol'',
               compiler = soljsonVersion,
               optimise = es_optimise etherscan,
               network = ''foundation'',
               txid = bc_txid blockchair,
               address = a,
               constructor = es_cargs etherscan\<rparr>\<rparr>"

definition contract_of ::
  "versions \<Rightarrow> (string \<rightharpoonup> string) \<Rightarrow> string \<Rightarrow> etherscan_info \<Rightarrow> blockchair_info \<Rightarrow> error + contract" where
  \<comment> \<open>lines 153 to 173: indexing the \<^verbatim>\<open>null\<close> of a failed match is a
      \<^verbatim>\<open>TypeError\<close>; a version that is \<^verbatim>\<open>undefined\<close> or empty fails the assertion\<close>
  "contract_of versions aliases a etherscan blockchair =
     (case match_trailing_alnum (es_compiler etherscan) of
        None \<Rightarrow> Inl (TypeError ''Cannot read property 1 of null'')
      | Some run \<Rightarrow>
          (case lookup_version versions aliases (slice 0 6 run) of
             None \<Rightarrow> Inl (AssertionError (''Compiler version should be defined for '' @ a))
           | Some soljsonVersion \<Rightarrow>
               if soljsonVersion = []
               then Inl (AssertionError (''Compiler version should be defined for '' @ a))
               else Inr (make_contract a etherscan blockchair soljsonVersion)))"

definition fetchAddress :: "'w env \<Rightarrow> string \<Rightarrow> options \<Rightarrow> ('w, unit) prog" where
  \<comment> \<open>lines 139 to 178\<close>
  "fetchAddress env address0 opts =
     (let a = toLowerCase address0
      in await (call (env_existsByAddressNetwork env a ''foundation'')
                  (ExistsByAddressNetwork a ''foundation'')) (\<lambda>exists.
           if exists
           then await (if update opts then onExistsUpdate else return ()) (\<lambda>_.
                  console_log Info (''Already exists: '' @ a))
           else
             await (promise_all (first_rejected env)
                      (fetchAddressEtherscan env a) (fetchAddressBlockchair env a))
               (\<lambda>(etherscan, blockchair).
                 await (console_log Info (''Load address '' @ a)) (\<lambda>_.
                   await (lift (contract_of (soljsonVersions opts) (compilersMap env) a
                                  etherscan blockchair)) (\<lambda>contract.
                     await (call (env_save env contract) (Save contract)) (\<lambda>added.
                       await (if \<not> added \<and> update opts then onExistsUpdate
                              else return ()) (\<lambda>_.
                         console_log Success a)))))))"

section \<open>Pages\<close>

definition listing_url :: string where
  "listing_url = ''https://etherscan.io/contractsVerified/''"

definition etherscan_page_url :: "nat \<Rightarrow> string" where
  "etherscan_page_url page = listing_url @ show_nat page"

definition footer_of :: "string \<Rightarrow> error + string" where
  \<comment> \<open>lines 188 to 190: the captured string of digits\<close>
  "footer_of txt =
     (case match_page_of txt of
        None \<Rightarrow> Inl (AssertionError ''match'')
      | Some pages \<Rightarrow> Inr pages)"

definition fetchPage :: "'w env \<Rightarrow> nat \<Rightarrow> options \<Rightarrow> ('w, string) prog" where
  \<comment> \<open>lines 180 to 191\<close>
  "fetchPage env page opts =
     await (fetchText env (etherscan_page_url page) (Some ''etherscan'')) (\<lambda>html.
       await (console_log Info (''Load page '' @ show_nat page)) (\<lambda>_.
         let doc = cheerio_list env html;
             addresses = map (\<lambda>t. toLowerCase (trim t)) (row_links doc)
         in await (for_each (\<lambda>a. fetchAddress env a opts) addresses) (\<lambda>_.
              lift (footer_of (doc_text doc)))))"

datatype bound = Latest | Upto nat

primrec fetchPages :: "nat \<Rightarrow> 'w env \<Rightarrow> nat \<Rightarrow> bound \<Rightarrow> options \<Rightarrow> ('w, unit) prog" where
  \<comment> \<open>lines 193 to 198. The loop has no bound of its own: the first argument is the
      number of iterations it is allowed, and \<open>Running\<close> is a loop that has not ended
      within it. The comparison \<^verbatim>\<open>page >= total\<close> is one of numbers.\<close>
  "fetchPages 0 env page up opts = (\<lambda>st. (Running, st))"
| "fetchPages (Suc fuel) env page up opts =
     await (fetchPage env page opts) (\<lambda>pages.
       if page \<ge> (case up of Latest \<Rightarrow> digits_to_nat pages | Upto n \<Rightarrow> n)
       then return ()
       else fetchPages fuel env (page + 1) up opts)"

section \<open>The program\<close>

record args =
  arg_address :: "string option"
  arg_page :: "nat option"
  arg_pages :: "(nat \<times> bound) option"
  arg_update :: bool

definition main :: "nat \<Rightarrow> 'w env \<Rightarrow> args \<Rightarrow> ('w, unit) prog" where
  \<comment> \<open>lines 200 to 208, from the parsed arguments on; the empty string and the number
      zero are falsy\<close>
  "main fuel env args =
     await (soljsonVersionsLoad env) (\<lambda>versions.
       let opts = \<lparr>soljsonVersions = versions, update = arg_update args\<rparr>
       in await (case arg_address args of
                   None \<Rightarrow> return ()
                 | Some a \<Rightarrow> if a = [] then return () else fetchAddress env a opts) (\<lambda>_.
          await (case arg_page args of
                   None \<Rightarrow> return ()
                 | Some p \<Rightarrow>
                     if p = 0 then return ()
                     else await (fetchPage env p opts) (\<lambda>_. return ())) (\<lambda>_.
            case arg_pages args of
              None \<Rightarrow> return ()
            | Some (down, up) \<Rightarrow> fetchPages fuel env down up opts)))"

definition program :: "nat \<Rightarrow> 'w env \<Rightarrow> args \<Rightarrow> 'w \<Rightarrow> unit outcome \<times> 'w state" where
  \<comment> \<open>lines 210 to 213, run from a world and an empty trace: an exception that reaches
      the top is printed and the process exits with status 1; a process with nothing
      left to do ends with status 0\<close>
  "program fuel env args w =
     (case main fuel env args \<lparr>world = w, trace = []\<rparr> of
        (Ok _, st) \<Rightarrow> (Exit 0, st)
      | (Throw err, st) \<Rightarrow> await (console_error err) (\<lambda>_. process_exit 1) st
      | (Exit c, st) \<Rightarrow> (Exit c, st)
      | (Running, st) \<Rightarrow> (Running, st))"

section \<open>Stating properties of runs\<close>

text \<open>
  The definitions of this section are not part of the program: they name what the
  properties below speak of.
\<close>

definition outcome_of :: "error + 'a \<Rightarrow> 'a outcome" where
  "outcome_of x = (case x of Inl e \<Rightarrow> Throw e | Inr v \<Rightarrow> Ok v)"

definition and_then :: "error + 'a \<Rightarrow> ('a \<Rightarrow> error + 'b) \<Rightarrow> error + 'b" where
  "and_then x f = (case x of Inl e \<Rightarrow> Inl e | Inr v \<Rightarrow> f v)"

definition persist ::
  "'w env \<Rightarrow> options \<Rightarrow> string \<Rightarrow> etherscan_info \<Rightarrow> blockchair_info \<Rightarrow> ('w, unit) prog" where
  \<comment> \<open>lines 151 to 177: the rest of \<^verbatim>\<open>fetchAddress\<close> once both promises have resolved\<close>
  "persist env opts a etherscan blockchair =
     await (console_log Info (''Load address '' @ a)) (\<lambda>_.
       await (lift (contract_of (soljsonVersions opts) (compilersMap env) a
                      etherscan blockchair)) (\<lambda>contract.
         await (call (env_save env contract) (Save contract)) (\<lambda>added.
           await (if \<not> added \<and> update opts then onExistsUpdate
                  else return ()) (\<lambda>_.
             console_log Success a))))"

definition new_events :: "'w state \<Rightarrow> 'w state \<Rightarrow> event list" where
  \<comment> \<open>what a run from \<open>st\<close> to \<open>st'\<close> has added to the trace\<close>
  "new_events st st' = drop (length (trace st)) (trace st')"

fun saved_contracts :: "event list \<Rightarrow> contract list" where
  \<comment> \<open>the records handed to \<^verbatim>\<open>save\<close>, in order\<close>
  "saved_contracts [] = []"
| "saved_contracts (Save c z # evs) = c # saved_contracts evs"
| "saved_contracts (e # evs) = saved_contracts evs"

definition start :: "'w \<Rightarrow> 'w state" where
  "start w = \<lparr>world = w, trace = []\<rparr>"

fun found_present :: "event \<Rightarrow> bool" where
  \<comment> \<open>a call of the store that found the address already there\<close>
  "found_present (ExistsByAddressNetwork a n (Inr True)) = True"
| "found_present (Save c (Inr False)) = True"
| "found_present e = False"

definition calm :: "event list \<Rightarrow> bool" where
  "calm evs \<longleftrightarrow> (\<forall>e\<in>set evs. \<not> found_present e)"

definition halted :: "event list \<Rightarrow> bool" where
  \<comment> \<open>the first call that finds the address there is followed by the message of
      \<^verbatim>\<open>onExistsUpdate\<close> and the exit, and by nothing else\<close>
  "halted evs \<longleftrightarrow>
     (\<exists>pre p. evs = pre @ [p, ConsoleLog Info ''Existed contract is reached'', ProcessExit 0]
        \<and> found_present p \<and> calm pre)"

definition stops_on_present :: "('w, 'a) prog \<Rightarrow> bool" where
  "stops_on_present m \<longleftrightarrow>
     (\<forall>st r st'. m st = (r, st') \<longrightarrow>
        (\<exists>evs. trace st' = trace st @ evs
           \<and> (case r of Exit c \<Rightarrow> c = 0 \<and> halted evs | _ \<Rightarrow> calm evs)))"


definition is_listing_url :: "string \<Rightarrow> bool" where
  "is_listing_url url \<longleftrightarrow> take (length listing_url) url = listing_url"

definition page_count :: "'w env \<Rightarrow> error + response \<Rightarrow> nat option" where
  \<comment> \<open>the number of pages that \<^verbatim>\<open>fetchPage\<close> reads in the footer of a fetched page\<close>
  "page_count env x =
     (case x of
        Inl e \<Rightarrow> None
      | Inr res \<Rightarrow>
          if status res = 200
          then (case footer_of (doc_text (cheerio_list env (body res))) of
                  Inl e \<Rightarrow> None
                | Inr pages \<Rightarrow> Some (digits_to_nat pages))
          else None)"

fun visits :: "'w env \<Rightarrow> event list \<Rightarrow> (string \<times> nat option) list" where
  \<comment> \<open>the listing pages fetched, in order, each with the page count in its footer\<close>
  "visits env [] = []"
| "visits env (HttpGet url x # evs) =
     (if is_listing_url url then (url, page_count env x) # visits env evs
      else visits env evs)"
| "visits env (e # evs) = visits env evs"

definition not_listing :: "event \<Rightarrow> bool" where
  "not_listing e = (case e of HttpGet url x \<Rightarrow> \<not> is_listing_url url | _ \<Rightarrow> True)"

section \<open>A small environment\<close>

text \<open>
  An environment to run the program in: the world is the list of the addresses in the
  store; the manifest has one line; every address page gives the document \<open>doc\<close>,
  every listing page the document \<open>listing\<close>, every query of the ledger-indexing
  site the rows \<open>rows\<close>, and every ledger lookup the transaction \<open>tx\<close>.
\<close>

definition store_exists :: "string \<Rightarrow> string \<Rightarrow> string list \<Rightarrow> (error + bool) \<times> string list" where
  \<comment> \<open>Modelled from the spec: \<^verbatim>\<open>existsByAddressNetwork\<close> of \<^verbatim>\<open>lib/contract-loader\<close>,
      which is not in the source at hand; whether the address is in the store\<close>
  "store_exists a n w = (Inr (a \<in> set w), w)"

definition store_save :: "contract \<Rightarrow> string list \<Rightarrow> (error + bool) \<times> string list" where
  \<comment> \<open>Modelled from the spec: \<^verbatim>\<open>save\<close> of \<^verbatim>\<open>lib/contract-loader\<close>, which is not in the
      source at hand; false when the address is already present, else the record is
      added\<close>
  "store_save c w =
     (if address (info c) \<in> set w then (Inr False, w)
      else (Inr True, address (info c) # w))"

definition sample_env :: "detail_doc \<Rightarrow> list_doc \<Rightarrow> call_row list \<Rightarrow> tx_info \<Rightarrow> string list env" where
  "sample_env doc listing rows tx =
     \<lparr>env_fetch = (\<lambda>url w.
        (Inr \<lparr>status = 200,
              body = (if url = manifest_url then ''soljson-v0.4.11+commit.68ef5810.js''
                      else url)\<rparr>, w)),
      env_existsByAddressNetwork = store_exists,
      env_save = store_save,
      env_getTxInfo = (\<lambda>n t w. (Inr tx, w)),
      cheerio_detail = (\<lambda>html. doc),
      cheerio_list = (\<lambda>html. listing),
      JSON_parse = (\<lambda>txt. Inr \<lparr>data = rows\<rparr>),
      compilersMap = Map.empty,
      etherscanConstructorArguments = [''0xddd'' \<mapsto> ''aa01''],
      first_rejected = (\<lambda>w. True)\<rparr>"

definition sample_doc :: detail_doc where
  "sample_doc =
     \<lparr>td_name = '' Token '',
      td_compiler = ''v0.4.11+commit.68ef5810'',
      td_optimization = ''Yes'',
      td_runs = ''200'',
      pre_editor = ''contract Token {}'',
      pre_abi = ''[]'',
      pre3_html = None\<rparr>"

definition sample_tx :: "string \<Rightarrow> tx_info" where
  "sample_tx a = \<lparr>tx_address = a, tx_bin = ''6060''\<rparr>"

definition sample_rows :: "call_row list" where
  "sample_rows = [\<lparr>transaction_hash = ''0x01''\<rparr>]"

definition sample_listing :: list_doc where
  "sample_listing = \<lparr>row_links = [], doc_text = ''Page 1 of 3''\<rparr>"

definition sample_options :: options where
  "sample_options =
     \<lparr>soljsonVersions = [''68ef58'' \<mapsto> ''0.4.11+commit.68ef5810''], update = False\<rparr>"

section \<open>The index keeps the version with a commit marker\<close>

lemma soljson_line_other:
  "fingerprint l \<noteq> Some f \<Longrightarrow> soljson_line m l f = m f"
  by (auto simp: soljson_line_def split: option.splits)

lemma foldl_soljson_other:
  "\<forall>l\<in>set ls. fingerprint l \<noteq> Some f \<Longrightarrow> foldl soljson_line m ls f = m f"
  by (induction ls arbitrary: m) (simp_all add: soljson_line_other)

lemma soljson_line_same:
  "fingerprint l = Some f \<Longrightarrow>
   soljson_line m l f = (if has_commit m f then m f else Some (version_string l))"
  by (simp add: soljson_line_def)

lemma includes_str_nonempty: "includes_str v (c # p) \<Longrightarrow> v \<noteq> []"
  by (cases v) auto

text \<open>
  Claim C1. Let two lines \<open>a\<close> and \<open>b\<close> of the manifest, \<open>a\<close> before \<open>b\<close>, be the
  lines that yield the fingerprint \<open>f\<close>, and let exactly one of their version strings
  contain \<^verbatim>\<open>commit\<close>. Then the index maps \<open>f\<close> to the version string that contains
  it, whether that is the one of the earlier line or of the later.
\<close>

theorem soljsonVersions_commit_wins:
  assumes lines: "split_nl txt = pre @ a # mid @ b # post"
    and fa: "fingerprint a = Some f"
    and fb: "fingerprint b = Some f"
    and others: "\<forall>l\<in>set (pre @ mid @ post). fingerprint l \<noteq> Some f"
    and one: "includes_str (version_string a) ''commit''
                \<noteq> includes_str (version_string b) ''commit''"
  shows "soljsonVersions_of txt f =
           Some (if includes_str (version_string a) ''commit'' then version_string a
                 else version_string b)"
proof -
  let ?m0 = "foldl soljson_line Map.empty pre"
  let ?m1 = "soljson_line ?m0 a"
  let ?m2 = "foldl soljson_line ?m1 mid"
  let ?m3 = "soljson_line ?m2 b"
  have split: "soljsonVersions_of txt = foldl soljson_line ?m3 post"
    by (simp add: soljsonVersions_of_def lines)
  have m0: "?m0 f = None"
    using others by (simp add: foldl_soljson_other)
  have m1: "?m1 f = Some (version_string a)"
    using fa m0 by (simp add: soljson_line_same has_commit_def)
  have m2: "?m2 f = Some (version_string a)"
    using others m1 by (simp add: foldl_soljson_other)
  have hc: "has_commit ?m2 f = includes_str (version_string a) ''commit''"
    using m2 includes_str_nonempty by (auto simp: has_commit_def)
  have m3: "?m3 f = Some (if includes_str (version_string a) ''commit''
                          then version_string a else version_string b)"
    using fb m2 hc by (simp add: soljson_line_same)
  have "foldl soljson_line ?m3 post f = ?m3 f"
    using others by (simp add: foldl_soljson_other)
  with split m3 show ?thesis by simp
qed

lemma sample_fingerprints:
  "fingerprint ''soljson-v0.4.10+commit.f0d539ae.js'' = Some ''f0d539''"
  "fingerprint ''soljson-v0.4.11-68ef5810.js'' = Some ''68ef58''"
  "fingerprint ''soljson-v0.4.11+commit.68ef5810.js'' = Some ''68ef58''"
  by (simp_all add: fingerprint_def match_js_file_def match_trailing_alnum_def
      is_lower_alnum_def slice_def)

lemma sample_versions:
  "version_string ''soljson-v0.4.11-68ef5810.js'' = ''0.4.11-68ef5810''"
  "version_string ''soljson-v0.4.11+commit.68ef5810.js'' = ''0.4.11+commit.68ef5810''"
  by (simp_all add: version_string_def trim_def is_space_def slice_def)

theorem soljsonVersions_commit_wins_witness:
  "soljsonVersions_of
     ''soljson-v0.4.10+commit.f0d539ae.js\<newline>soljson-v0.4.11-68ef5810.js\<newline>soljson-v0.4.11+commit.68ef5810.js''
     ''68ef58'' = Some ''0.4.11+commit.68ef5810''
   \<and> soljsonVersions_of
     ''soljson-v0.4.11+commit.68ef5810.js\<newline>soljson-v0.4.10+commit.f0d539ae.js\<newline>soljson-v0.4.11-68ef5810.js''
     ''68ef58'' = Some ''0.4.11+commit.68ef5810''"
proof
  show "soljsonVersions_of
     ''soljson-v0.4.10+commit.f0d539ae.js\<newline>soljson-v0.4.11-68ef5810.js\<newline>soljson-v0.4.11+commit.68ef5810.js''
     ''68ef58'' = Some ''0.4.11+commit.68ef5810''"
    using soljsonVersions_commit_wins [of _ "[''soljson-v0.4.10+commit.f0d539ae.js'']"
        "''soljson-v0.4.11-68ef5810.js''" "[]" "''soljson-v0.4.11+commit.68ef5810.js''" "[]"
        "''68ef58''"]
    by (simp add: sample_fingerprints sample_versions)
  show "soljsonVersions_of
     ''soljson-v0.4.11+commit.68ef5810.js\<newline>soljson-v0.4.10+commit.f0d539ae.js\<newline>soljson-v0.4.11-68ef5810.js''
     ''68ef58'' = Some ''0.4.11+commit.68ef5810''"
    using soljsonVersions_commit_wins [of _ "[]"
        "''soljson-v0.4.11+commit.68ef5810.js''" "[''soljson-v0.4.10+commit.f0d539ae.js'']"
        "''soljson-v0.4.11-68ef5810.js''" "[]" "''68ef58''"]
    by (simp add: sample_fingerprints sample_versions)
qed

section \<open>Runs of one address\<close>

lemma outcome_of_simps [simp]:
  "outcome_of (Inl e) = Throw e" "outcome_of (Inr v) = Ok v"
  by (simp_all add: outcome_of_def)

lemma and_then_simps [simp]:
  "and_then (Inl e) f = Inl e" "and_then (Inr v) f = f v"
  by (simp_all add: and_then_def)

lemma lift_eq: "lift x st = (outcome_of x, st)"
  by (cases x) (simp_all add: lift_def throw_def return_def)

lemma await_lift:
  "await (lift x) k st = (case x of Inl e \<Rightarrow> (Throw e, st) | Inr v \<Rightarrow> k v st)"
  by (cases x) (simp_all add: await_def lift_eq)

lemma call_eq:
  "call f ev st =
     (case f (world st) of
        (x, w') \<Rightarrow> (outcome_of x, \<lparr>world = w', trace = trace st @ [ev x]\<rparr>))"
  by (simp add: call_def emit_def outcome_of_def split: prod.splits sum.splits)

lemma await_call:
  "await (call f ev) k st =
     (case f (world st) of
        (x, w') \<Rightarrow>
          (case x of
             Inl e \<Rightarrow> (Throw e, \<lparr>world = w', trace = trace st @ [ev x]\<rparr>)
           | Inr v \<Rightarrow> k v \<lparr>world = w', trace = trace st @ [ev x]\<rparr>))"
  by (simp add: await_def call_eq split: prod.splits sum.splits)

lemma await_return: "await (return x) k st = k x st"
  by (simp add: await_def return_def)

lemma await_throw: "await (throw e) k st = (Throw e, st)"
  by (simp add: await_def throw_def)

lemma await_assoc: "await (await m f) g st = await m (\<lambda>x. await (f x) g) st"
  by (simp add: await_def split: prod.splits outcome.splits)

lemma await_fetchText:
  "await (fetchText env url key) k st =
     (case env_fetch env url (world st) of
        (x, w') \<Rightarrow>
          (case and_then x check_status of
             Inl e \<Rightarrow> (Throw e, \<lparr>world = w', trace = trace st @ [HttpGet url x]\<rparr>)
           | Inr b \<Rightarrow> k b \<lparr>world = w', trace = trace st @ [HttpGet url x]\<rparr>))"
  by (simp add: fetchText_def makeReq_def await_assoc await_call await_lift
      split: prod.splits sum.splits option.splits)

lemma fetchAddressEtherscan_eq:
  "fetchAddressEtherscan env a st =
     (case env_fetch env (etherscan_address_url a) (world st) of
        (x, w') \<Rightarrow>
          (outcome_of (and_then (and_then x check_status) (etherscan_info_of env a)),
           \<lparr>world = w', trace = trace st @ [HttpGet (etherscan_address_url a) x]\<rparr>))"
  by (simp add: fetchAddressEtherscan_def await_fetchText lift_eq
      split: prod.splits sum.splits)

lemma fetchAddressBlockchair_eq:
  "fetchAddressBlockchair env a st =
     (case env_fetch env (blockchair_calls_url a) (world st) of
        (x, w1) \<Rightarrow>
          (case and_then (and_then x check_status) (txid_of env) of
             Inl e \<Rightarrow>
               (Throw e, \<lparr>world = w1, trace = trace st @ [HttpGet (blockchair_calls_url a) x]\<rparr>)
           | Inr t \<Rightarrow>
               (case env_getTxInfo env ''foundation'' t w1 of
                  (y, w2) \<Rightarrow>
                    (outcome_of (and_then y (blockchair_info_of a t)),
                     \<lparr>world = w2,
                        trace = trace st @ [HttpGet (blockchair_calls_url a) x,
                                            GetTxInfo ''foundation'' t y]\<rparr>))))"
  by (simp add: fetchAddressBlockchair_def await_fetchText await_lift await_call lift_eq
      split: prod.splits sum.splits)

lemma onExistsUpdate_eq:
  "onExistsUpdate st =
     (Exit 0, st\<lparr>trace := trace st @ [ConsoleLog Info ''Existed contract is reached'', ProcessExit 0]\<rparr>)"
  by (simp add: onExistsUpdate_def await_def console_log_def process_exit_def emit_def)

lemma console_log_eq:
  "console_log s m st = (Ok (), st\<lparr>trace := trace st @ [ConsoleLog s m]\<rparr>)"
  by (simp add: console_log_def emit_def)

lemma await_console_log:
  "await (console_log s m) k st = k () (st\<lparr>trace := trace st @ [ConsoleLog s m]\<rparr>)"
  by (simp add: await_def console_log_eq)

lemma await_onExistsUpdate:
  "await onExistsUpdate k st =
     (Exit 0, st\<lparr>trace := trace st @ [ConsoleLog Info ''Existed contract is reached'',
                                       ProcessExit 0]\<rparr>)"
  by (simp add: await_def onExistsUpdate_eq)

lemma persist_eq:
  "persist env opts a es bc st =
    (case contract_of (soljsonVersions opts) (compilersMap env) a es bc of
       Inl e \<Rightarrow> (Throw e, \<lparr>world = world st, trace = trace st @ [ConsoleLog Info (''Load address '' @ a)]\<rparr>)
     | Inr c \<Rightarrow>
        (case env_save env c (world st) of
           (Inl e, w3) \<Rightarrow>
             (Throw e, \<lparr>world = w3, trace = trace st @ [ConsoleLog Info (''Load address '' @ a), Save c (Inl e)]\<rparr>)
         | (Inr added, w3) \<Rightarrow>
             if \<not> added \<and> update opts
             then (Exit 0, \<lparr>world = w3, trace = trace st @ [ConsoleLog Info (''Load address '' @ a), Save c (Inr added),
                        ConsoleLog Info ''Existed contract is reached'', ProcessExit 0]\<rparr>)
             else (Ok (), \<lparr>world = w3, trace = trace st @ [ConsoleLog Info (''Load address '' @ a), Save c (Inr added),
                        ConsoleLog Success a]\<rparr>)))"
  by (simp add: persist_def await_console_log await_lift await_call await_onExistsUpdate await_return
      console_log_eq split: prod.splits sum.splits)

lemma fetchAddress_unfold:
  "fetchAddress env address0 opts st =
    (let a = toLowerCase address0 in
     case env_existsByAddressNetwork env a ''foundation'' (world st) of
       (Inl e, w1) \<Rightarrow> (Throw e, \<lparr>world = w1, trace = trace st @ [ExistsByAddressNetwork a ''foundation'' (Inl e)]\<rparr>)
     | (Inr True, w1) \<Rightarrow>
         if update opts
         then (Exit 0, \<lparr>world = w1, trace = trace st @ [ExistsByAddressNetwork a ''foundation'' (Inr True),
                  ConsoleLog Info ''Existed contract is reached'', ProcessExit 0]\<rparr>)
         else (Ok (), \<lparr>world = w1, trace = trace st @ [ExistsByAddressNetwork a ''foundation'' (Inr True),
                  ConsoleLog Info (''Already exists: '' @ a)]\<rparr>)
     | (Inr False, w1) \<Rightarrow>
         await (promise_all (first_rejected env)
                  (fetchAddressEtherscan env a) (fetchAddressBlockchair env a))
           (\<lambda>(etherscan, blockchair). persist env opts a etherscan blockchair)
           \<lparr>world = w1, trace = trace st @ [ExistsByAddressNetwork a ''foundation'' (Inr False)]\<rparr>)"
proof -
  let ?a = "toLowerCase address0"
  obtain x w1 where ex: "env_existsByAddressNetwork env ?a ''foundation'' (world st) = (x, w1)"
    by (cases "env_existsByAddressNetwork env ?a ''foundation'' (world st)")
  show ?thesis
  proof (cases x)
    case (Inl e)
    with ex show ?thesis
      by (simp add: fetchAddress_def Let_def await_call)
  next
    case (Inr b)
    show ?thesis
    proof (cases b)
      case True
      with Inr ex show ?thesis
        by (simp add: fetchAddress_def Let_def await_call await_onExistsUpdate await_return
            console_log_eq)
    next
      case False
      with Inr ex show ?thesis
        by (simp only: fetchAddress_def persist_def Let_def await_call prod.case sum.case bool.case
            if_False)
    qed
  qed
qed

lemma promise_all_eq:
  "promise_all first pa pb st =
     (case pa st of
        (ra, st1) \<Rightarrow>
          (case ra of
             Exit c \<Rightarrow> (Exit c, st1)
           | Running \<Rightarrow> (Running, st1)
           | Ok a \<Rightarrow>
               (case pb st1 of
                  (Ok b, st2) \<Rightarrow> (Ok (a, b), st2)
                | (Throw eb, st2) \<Rightarrow> (Throw eb, st2)
                | (Exit c, st2) \<Rightarrow> (Exit c, st2)
                | (Running, st2) \<Rightarrow> (Running, st2))
           | Throw ea \<Rightarrow>
               (case pb st1 of
                  (Ok b, st2) \<Rightarrow> (Throw ea, st2)
                | (Throw eb, st2) \<Rightarrow> (Throw (if first (world st2) then ea else eb), st2)
                | (Exit c, st2) \<Rightarrow> (Exit c, st2)
                | (Running, st2) \<Rightarrow> (Running, st2))))"
  by (simp add: promise_all_def split: prod.splits outcome.splits)

lemma reconcile_eq:
  "await (promise_all first (fetchAddressEtherscan env a) (fetchAddressBlockchair env a))
     (\<lambda>(etherscan, blockchair). persist env opts a etherscan blockchair) st =
   (case env_fetch env (etherscan_address_url a) (world st) of
      (xa, wa) \<Rightarrow>
        (case env_fetch env (blockchair_calls_url a) wa of
           (xb, wb) \<Rightarrow>
             (case and_then (and_then xb check_status) (txid_of env) of
                Inl eb \<Rightarrow>
                  (Throw (case and_then (and_then xa check_status) (etherscan_info_of env a) of
                            Inl ea \<Rightarrow> if first wb then ea else eb
                          | Inr es \<Rightarrow> eb),
                   \<lparr>world = wb,
                      trace = trace st @ [HttpGet (etherscan_address_url a) xa,
                                          HttpGet (blockchair_calls_url a) xb]\<rparr>)
              | Inr t \<Rightarrow>
                  (case env_getTxInfo env ''foundation'' t wb of
                     (y, w2) \<Rightarrow>
                       (case and_then (and_then xa check_status) (etherscan_info_of env a) of
                          Inl ea \<Rightarrow>
                            (Throw (case and_then y (blockchair_info_of a t) of
                                      Inl eb \<Rightarrow> if first w2 then ea else eb
                                    | Inr bc \<Rightarrow> ea),
                             \<lparr>world = w2,
                                trace = trace st @ [HttpGet (etherscan_address_url a) xa,
                                                    HttpGet (blockchair_calls_url a) xb,
                                                    GetTxInfo ''foundation'' t y]\<rparr>)
                        | Inr es \<Rightarrow>
                            (case and_then y (blockchair_info_of a t) of
                               Inl eb \<Rightarrow>
                                 (Throw eb,
                                  \<lparr>world = w2,
                                     trace = trace st @ [HttpGet (etherscan_address_url a) xa,
                                                         HttpGet (blockchair_calls_url a) xb,
                                                         GetTxInfo ''foundation'' t y]\<rparr>)
                             | Inr bc \<Rightarrow>
                                 persist env opts a es bc
                                   \<lparr>world = w2,
                                      trace = trace st @ [HttpGet (etherscan_address_url a) xa,
                                                          HttpGet (blockchair_calls_url a) xb,
                                                          GetTxInfo ''foundation'' t y]\<rparr>))))))"
proof -
  let ?ua = "etherscan_address_url a" and ?ub = "blockchair_calls_url a"
  obtain xa wa where fa: "env_fetch env ?ua (world st) = (xa, wa)"
    by (cases "env_fetch env ?ua (world st)")
  obtain xb wb where fb: "env_fetch env ?ub wa = (xb, wb)"
    by (cases "env_fetch env ?ub wa")
  let ?ra = "and_then (and_then xa check_status) (etherscan_info_of env a)"
  let ?tb = "and_then (and_then xb check_status) (txid_of env)"
  let ?st1 = "\<lparr>world = wa, trace = trace st @ [HttpGet ?ua xa]\<rparr>"
  have A: "fetchAddressEtherscan env a st = (outcome_of ?ra, ?st1)"
    using fa by (simp add: fetchAddressEtherscan_eq)
  show ?thesis
  proof (cases ?tb)
    case tb: (Inl eb)
    have B: "fetchAddressBlockchair env a ?st1 =
               (Throw eb, \<lparr>world = wb, trace = trace st @ [HttpGet ?ua xa, HttpGet ?ub xb]\<rparr>)"
      using fb tb by (simp add: fetchAddressBlockchair_eq)
    show ?thesis
      using fa fb tb by (cases ?ra) (simp_all add: await_def promise_all_def A B)
  next
    case tb: (Inr t)
    obtain y w2 where look: "env_getTxInfo env ''foundation'' t wb = (y, w2)"
      by (cases "env_getTxInfo env ''foundation'' t wb")
    let ?rb = "and_then y (blockchair_info_of a t)"
    have B: "fetchAddressBlockchair env a ?st1 =
               (outcome_of ?rb,
                \<lparr>world = w2, trace = trace st @ [HttpGet ?ua xa, HttpGet ?ub xb,
                                                 GetTxInfo ''foundation'' t y]\<rparr>)"
      using fb tb look by (simp add: fetchAddressBlockchair_eq)
    show ?thesis
      using fa fb tb look
      by (cases ?ra; cases ?rb) (simp_all add: await_def promise_all_def A B)
  qed
qed

lemma fetchAddress_cases [consumes 1, case_names exists_rejected exists_true query_failed
    reconcile_failed unresolved saved]:
  assumes run: "fetchAddress env address0 opts st = (r, st')"
  obtains
    (exists_rejected) e where
      "fst (env_existsByAddressNetwork env (toLowerCase address0) ''foundation'' (world st)) = Inl e"
      "r = Throw e"
      "trace st' = trace st @ [ExistsByAddressNetwork (toLowerCase address0) ''foundation'' (Inl e)]"
  | (exists_true)
      "env_existsByAddressNetwork env (toLowerCase address0) ''foundation'' (world st)
         = (Inr True, world st')"
      "r = (if update opts then Exit 0 else Ok ())"
      "trace st' = trace st @
         ExistsByAddressNetwork (toLowerCase address0) ''foundation'' (Inr True) #
         (if update opts then [ConsoleLog Info ''Existed contract is reached'', ProcessExit 0]
          else [ConsoleLog Info (''Already exists: '' @ toLowerCase address0)])"
  | (query_failed) xa xb eb e where
      "fst (env_existsByAddressNetwork env (toLowerCase address0) ''foundation'' (world st)) = Inr False"
      "and_then (and_then xb check_status) (txid_of env) = Inl eb"
      "and_then (and_then xa check_status) (etherscan_info_of env (toLowerCase address0)) = Inl e
       \<or> e = eb"
      "r = Throw e"
      "trace st' = trace st @
         [ExistsByAddressNetwork (toLowerCase address0) ''foundation'' (Inr False),
          HttpGet (etherscan_address_url (toLowerCase address0)) xa,
          HttpGet (blockchair_calls_url (toLowerCase address0)) xb]"
  | (reconcile_failed) xa xb t y e where
      "fst (env_existsByAddressNetwork env (toLowerCase address0) ''foundation'' (world st)) = Inr False"
      "and_then (and_then xb check_status) (txid_of env) = Inr t"
      "and_then (and_then xa check_status) (etherscan_info_of env (toLowerCase address0)) = Inl e
       \<or> and_then y (blockchair_info_of (toLowerCase address0) t) = Inl e"
      "r = Throw e"
      "trace st' = trace st @
         [ExistsByAddressNetwork (toLowerCase address0) ''foundation'' (Inr False),
          HttpGet (etherscan_address_url (toLowerCase address0)) xa,
          HttpGet (blockchair_calls_url (toLowerCase address0)) xb,
          GetTxInfo ''foundation'' t y]"
  | (unresolved) xa xb t ti es bc e where
      "fst (env_existsByAddressNetwork env (toLowerCase address0) ''foundation'' (world st)) = Inr False"
      "and_then (and_then xa check_status) (etherscan_info_of env (toLowerCase address0)) = Inr es"
      "and_then (and_then xb check_status) (txid_of env) = Inr t"
      "blockchair_info_of (toLowerCase address0) t ti = Inr bc"
      "contract_of (soljsonVersions opts) (compilersMap env) (toLowerCase address0) es bc = Inl e"
      "r = Throw e"
      "trace st' = trace st @
         [ExistsByAddressNetwork (toLowerCase address0) ''foundation'' (Inr False),
          HttpGet (etherscan_address_url (toLowerCase address0)) xa,
          HttpGet (blockchair_calls_url (toLowerCase address0)) xb,
          GetTxInfo ''foundation'' t (Inr ti),
          ConsoleLog Info (''Load address '' @ toLowerCase address0)]"
  | (saved) xa xb t ti es bc c w z where
      "fst (env_existsByAddressNetwork env (toLowerCase address0) ''foundation'' (world st)) = Inr False"
      "and_then (and_then xa check_status) (etherscan_info_of env (toLowerCase address0)) = Inr es"
      "and_then (and_then xb check_status) (txid_of env) = Inr t"
      "blockchair_info_of (toLowerCase address0) t ti = Inr bc"
      "contract_of (soljsonVersions opts) (compilersMap env) (toLowerCase address0) es bc = Inr c"
      "env_save env c w = (z, world st')"
      "r = (case z of Inl e \<Rightarrow> Throw e
            | Inr added \<Rightarrow> if \<not> added \<and> update opts then Exit 0 else Ok ())"
      "trace st' = trace st @
         [ExistsByAddressNetwork (toLowerCase address0) ''foundation'' (Inr False),
          HttpGet (etherscan_address_url (toLowerCase address0)) xa,
          HttpGet (blockchair_calls_url (toLowerCase address0)) xb,
          GetTxInfo ''foundation'' t (Inr ti),
          ConsoleLog Info (''Load address '' @ toLowerCase address0),
          Save c z] @
         (case z of Inl e \<Rightarrow> []
          | Inr added \<Rightarrow>
              if \<not> added \<and> update opts
              then [ConsoleLog Info ''Existed contract is reached'', ProcessExit 0]
              else [ConsoleLog Success (toLowerCase address0)])"
proof -
  let ?a = "toLowerCase address0"
  obtain x w1 where ex: "env_existsByAddressNetwork env ?a ''foundation'' (world st) = (x, w1)"
    by (cases "env_existsByAddressNetwork env ?a ''foundation'' (world st)")
  show thesis
  proof (cases x)
    case (Inl e)
    with run ex show thesis
      by (intro exists_rejected) (auto simp: fetchAddress_unfold Let_def)
  next
    case (Inr b)
    show thesis
    proof (cases b)
      case True
      with run ex Inr show thesis
        by (intro exists_true) (auto simp: fetchAddress_unfold Let_def split: if_splits)
    next
      case False
      let ?s0 = "\<lparr>world = w1, trace = trace st @ [ExistsByAddressNetwork ?a ''foundation'' (Inr False)]\<rparr>"
      let ?ua = "etherscan_address_url ?a" and ?ub = "blockchair_calls_url ?a"
      obtain xa wa where fa: "env_fetch env ?ua w1 = (xa, wa)"
        by (cases "env_fetch env ?ua w1")
      obtain xb wb where fb: "env_fetch env ?ub wa = (xb, wb)"
        by (cases "env_fetch env ?ub wa")
      let ?ra = "and_then (and_then xa check_status) (etherscan_info_of env ?a)"
      let ?tb = "and_then (and_then xb check_status) (txid_of env)"
      have ex': "fst (env_existsByAddressNetwork env ?a ''foundation'' (world st)) = Inr False"
        using ex Inr False by simp
      have run': "await (promise_all (first_rejected env)
                    (fetchAddressEtherscan env ?a) (fetchAddressBlockchair env ?a))
                   (\<lambda>(etherscan, blockchair). persist env opts ?a etherscan blockchair) ?s0 = (r, st')"
        using run ex Inr False by (simp add: fetchAddress_unfold Let_def)
      show thesis
      proof (cases ?tb)
        case tb: (Inl eb)
        from run' fa fb tb have thrown: "\<exists>e. r = Throw e \<and> (?ra = Inl e \<or> e = eb)"
          and tr: "trace st' = trace st @
             [ExistsByAddressNetwork ?a ''foundation'' (Inr False), HttpGet ?ua xa, HttpGet ?ub xb]"
          by (auto simp: reconcile_eq split: sum.splits)
        from thrown obtain e where "?ra = Inl e \<or> e = eb" "r = Throw e" by blast
        then show thesis
          by (rule query_failed [OF ex' tb _ _ tr])
      next
        case tb: (Inr t)
        obtain y w2 where look: "env_getTxInfo env ''foundation'' t wb = (y, w2)"
          by (cases "env_getTxInfo env ''foundation'' t wb")
        let ?rb = "and_then y (blockchair_info_of ?a t)"
        show thesis
        proof (cases "\<exists>es bc. ?ra = Inr es \<and> ?rb = Inr bc")
          case False
          with run' fa fb tb look have thrown: "\<exists>e. r = Throw e \<and> (?ra = Inl e \<or> ?rb = Inl e)"
            and tr: "trace st' = trace st @
               [ExistsByAddressNetwork ?a ''foundation'' (Inr False), HttpGet ?ua xa, HttpGet ?ub xb,
                GetTxInfo ''foundation'' t y]"
            by (auto simp: reconcile_eq split: sum.splits)
          from thrown obtain e where "?ra = Inl e \<or> ?rb = Inl e" "r = Throw e" by blast
          then show thesis
            by (rule reconcile_failed [OF ex' tb _ _ tr])
        next
          case True
          then obtain es bc where ra: "?ra = Inr es" and rb: "?rb = Inr bc"
            by blast
          from rb obtain ti where y: "y = Inr ti" and bc: "blockchair_info_of ?a t ti = Inr bc"
            by (cases y) auto
          let ?s2 = "\<lparr>world = w2, trace = trace st @
                       [ExistsByAddressNetwork ?a ''foundation'' (Inr False),
                        HttpGet ?ua xa, HttpGet ?ub xb, GetTxInfo ''foundation'' t (Inr ti)]\<rparr>"
          have run'': "persist env opts ?a es bc ?s2 = (r, st')"
            using run' fa fb tb look ra rb y by (simp add: reconcile_eq)
          show thesis
          proof (cases "contract_of (soljsonVersions opts) (compilersMap env) ?a es bc")
            case (Inl e)
            with run'' show thesis
              by (intro unresolved [OF ex' ra tb bc Inl])
                (auto simp: persist_eq)
          next
            case c: (Inr c)
            obtain z w3 where sv: "env_save env c w2 = (z, w3)"
              by (cases "env_save env c w2")
            from run'' c sv have "world st' = w3"
              by (auto simp: persist_eq split: sum.splits if_splits)
            with sv have sv': "env_save env c w2 = (z, world st')" by simp
            from run'' c sv show thesis
              by (intro saved [OF ex' ra tb bc c sv'])
                (auto simp: persist_eq split: sum.splits if_splits)
          qed
        qed
      qed
    qed
  qed
qed

lemma new_events_append: "trace st' = trace st @ evs \<Longrightarrow> new_events st st' = evs"
  by (simp add: new_events_def)

lemma urls_differ [simp]:
  "etherscan_address_url a \<noteq> blockchair_calls_url b"
  "blockchair_calls_url b \<noteq> etherscan_address_url a"
  by (simp_all add: etherscan_address_url_def blockchair_calls_url_def)

lemma checked_Inr:
  "and_then (and_then x check_status) f = Inr v \<longleftrightarrow>
     (\<exists>res. x = Inr res \<and> status res = 200 \<and> f (body res) = Inr v)"
  by (cases x) (auto simp: check_status_def)

lemma checked_Inl:
  "and_then (and_then (Inr res) check_status) f = Inl e \<longleftrightarrow>
     (if status res = 200 then f (body res) = Inl e
      else e = AssertionError (show_nat (status res) @ '' == 200''))"
  by (auto simp: check_status_def)

lemma not_hex_lt: "\<not> is_lower_hex (CHR ''<'')"
  by (simp add: is_lower_hex_def)

lemma match_cargs_Some:
  "match_cargs h = Some m \<longleftrightarrow>
     (\<exists>rest. h = m @ CHR ''<'' # rest \<and> m \<noteq> [] \<and> (\<forall>c\<in>set m. is_lower_hex c))"
proof
  assume "match_cargs h = Some m"
  then have m: "m = takeWhile is_lower_hex h" and ne: "m \<noteq> []"
    and nxt: "take 1 (drop (length m) h) = ''<''"
    by (auto simp: match_cargs_def Let_def split: if_splits)
  have "h = m @ drop (length m) h"
    unfolding m by (simp add: dropWhile_eq_drop [symmetric])
  moreover from nxt obtain rest where "drop (length m) h = CHR ''<'' # rest"
    by (cases "drop (length m) h") auto
  moreover have "\<forall>c\<in>set m. is_lower_hex c"
    unfolding m by (auto dest: set_takeWhileD)
  ultimately show "\<exists>rest. h = m @ CHR ''<'' # rest \<and> m \<noteq> [] \<and> (\<forall>c\<in>set m. is_lower_hex c)"
    using ne by metis
next
  assume "\<exists>rest. h = m @ CHR ''<'' # rest \<and> m \<noteq> [] \<and> (\<forall>c\<in>set m. is_lower_hex c)"
  then obtain rest where h: "h = m @ CHR ''<'' # rest" and ne: "m \<noteq> []"
    and hex: "\<forall>c\<in>set m. is_lower_hex c" by blast
  have "takeWhile is_lower_hex h = m"
    unfolding h using hex not_hex_lt by (simp add: takeWhile_append2)
  then show "match_cargs h = Some m"
    using ne h by (simp add: match_cargs_def Let_def)
qed

lemma cargs_of_html_valid:
  "m \<noteq> [] \<Longrightarrow> \<forall>c\<in>set m. is_lower_hex c \<Longrightarrow> even (length m) \<Longrightarrow>
   cargs_of_html (Some (m @ CHR ''<'' # rest)) = Inr m"
proof -
  assume a: "m \<noteq> []" "\<forall>c\<in>set m. is_lower_hex c" "even (length m)"
  then have "match_cargs (m @ CHR ''<'' # rest) = Some m"
    by (auto simp: match_cargs_Some)
  with a show ?thesis
    by (simp add: cargs_of_html_def even_iff_mod_2_eq_zero)
qed

lemma cargs_of_html_invalid:
  assumes "h \<noteq> []"
    and "\<not> (\<exists>m rest. h = m @ CHR ''<'' # rest \<and> m \<noteq> [] \<and> (\<forall>c\<in>set m. is_lower_hex c)
              \<and> even (length m))"
  shows "cargs_of_html (Some h) = Inl (AssertionError ''Contructor Arguments is not valid'')"
proof (cases "match_cargs h")
  case None
  with assms(1) show ?thesis by (simp add: cargs_of_html_def)
next
  case (Some m)
  with assms(2) have "odd (length m)"
    by (auto simp: match_cargs_Some)
  with Some assms(1) show ?thesis
    by (simp add: cargs_of_html_def even_iff_mod_2_eq_zero)
qed

lemma cargs_of_html_absent:
  "cargs_of_html None = Inr []" "cargs_of_html (Some []) = Inr []"
  by (simp_all add: cargs_of_html_def)

lemma contract_of_Inr:
  assumes "contract_of vs al a es bc = Inr c"
  shows "\<exists>v. v \<noteq> [] \<and> c = make_contract a es bc v"
  using assms by (auto simp: contract_of_def split: option.splits if_splits)

lemma make_contract_fields [simp]:
  "constructor (info (make_contract a es bc v)) = es_cargs es"
  "optimise (info (make_contract a es bc v)) = es_optimise es"
  "address (info (make_contract a es bc v)) = a"
  "network (info (make_contract a es bc v)) = ''foundation''"
  by (simp_all add: make_contract_def)

lemma match_trailing_alnum_None:
  "match_trailing_alnum s = None \<longleftrightarrow> s = [] \<or> \<not> is_lower_alnum (last s)"
proof (cases "rev s")
  case Nil
  then show ?thesis by (simp add: match_trailing_alnum_def)
next
  case (Cons c cs)
  then have "s = rev cs @ [c]" by (metis rev.simps(2) rev_rev_ident)
  with Cons show ?thesis by (simp add: match_trailing_alnum_def)
qed

lemma log_differs [simp]:
  "''Load address '' @ a \<noteq> ''Existed contract is reached''"
  "''Load address '' @ a \<noteq> ''Already exists: '' @ b"
  by simp_all

text \<open>What a run that saves a record has fetched.\<close>

lemma saved_record:
  assumes run: "fetchAddress env address0 opts st = (r, st')"
    and sv: "Save c z \<in> set (new_events st st')"
  obtains res es bc v where
    "HttpGet (etherscan_address_url (toLowerCase address0)) (Inr res) \<in> set (new_events st st')"
    "status res = 200"
    "etherscan_info_of env (toLowerCase address0) (body res) = Inr es"
    "c = make_contract (toLowerCase address0) es bc v"
    "saved_contracts (new_events st st') = [c]"
  using run
proof (cases rule: fetchAddress_cases)
  case (saved xa xb t ti es bc c' w z')
  from sv saved(8) have c: "c' = c"
    by (auto simp: new_events_append split: sum.splits if_splits)
  from saved(2) obtain res where xa: "xa = Inr res" "status res = 200"
    "etherscan_info_of env (toLowerCase address0) (body res) = Inr es"
    by (auto simp: checked_Inr)
  from saved(5) c obtain v where v: "c = make_contract (toLowerCase address0) es bc v"
    by (auto dest: contract_of_Inr)
  from saved(8) xa c have
    "HttpGet (etherscan_address_url (toLowerCase address0)) (Inr res) \<in> set (new_events st st')"
    "saved_contracts (new_events st st') = [c]"
    by (auto simp: new_events_append split: sum.splits if_splits)
  with xa v show ?thesis by (intro that)
qed (use sv in \<open>auto simp: new_events_append split: if_splits\<close>)

lemma one_page:
  assumes run: "fetchAddress env address0 opts st = (r, st')"
    and p1: "HttpGet (etherscan_address_url (toLowerCase address0)) x \<in> set (new_events st st')"
    and p2: "HttpGet (etherscan_address_url (toLowerCase address0)) y \<in> set (new_events st st')"
  shows "x = y"
  using run
  by (cases rule: fetchAddress_cases)
    (use p1 p2 in \<open>auto simp: new_events_append split: if_splits sum.splits\<close>)

lemma saved_cargs:
  assumes run: "fetchAddress env address0 opts st = (r, st')"
    and page: "HttpGet (etherscan_address_url (toLowerCase address0)) (Inr resp)
                 \<in> set (new_events st st')"
    and sv: "Save c z \<in> set (new_events st st')"
  obtains cargs where
    "cargs_of_html (pre3_html (cheerio_detail env (body resp))) = Inr cargs"
    "constructor (info c) =
       (if cargs \<noteq> [] then cargs
        else (case etherscanConstructorArguments env (toLowerCase address0) of
                Some v \<Rightarrow> v | None \<Rightarrow> []))"
proof -
  let ?a = "toLowerCase address0"
  from run sv obtain res es bc v where
    res: "HttpGet (etherscan_address_url ?a) (Inr res) \<in> set (new_events st st')"
    and es: "etherscan_info_of env ?a (body res) = Inr es"
    and c: "c = make_contract ?a es bc v"
    by (rule saved_record)
  from one_page [OF run res page] have "res = resp" by simp
  with es obtain cargs where
    1: "cargs_of_html (pre3_html (cheerio_detail env (body resp))) = Inr cargs"
    and 2: "es_cargs es = (if cargs \<noteq> [] then cargs
        else (case etherscanConstructorArguments env ?a of Some v \<Rightarrow> v | None \<Rightarrow> []))"
    by (cases "cargs_of_html (pre3_html (cheerio_detail env (body resp)))")
      (auto simp: etherscan_info_of_def Let_def)
  from 2 c have "constructor (info c) = (if cargs \<noteq> [] then cargs
        else (case etherscanConstructorArguments env ?a of Some v \<Rightarrow> v | None \<Rightarrow> []))"
    by simp
  with 1 show ?thesis by (rule that)
qed

lemma throws_without_save:
  assumes run: "fetchAddress env address0 opts st = (r, st')"
    and page: "HttpGet u x \<in> set (new_events st st')"
    and nosave: "\<forall>c z. Save c z \<notin> set (new_events st st')"
  shows "\<exists>e. r = Throw e"
  using run
proof (cases rule: fetchAddress_cases)
  case (exists_rejected e)
  then show ?thesis by simp
next
  case exists_true
  with page show ?thesis by (simp add: new_events_append split: if_splits)
next
  case (query_failed xa xb eb e)
  then show ?thesis by simp
next
  case (reconcile_failed xa xb t y e)
  then show ?thesis by simp
next
  case (unresolved xa xb t ti es bc e)
  then show ?thesis by simp
next
  case (saved xa xb t ti es bc c w z)
  from saved(8) have "Save c z \<in> set (new_events st st')"
    by (simp add: new_events_append)
  with nosave show ?thesis by blast
qed

lemma parseInt_number: "parseInt s = JNaN \<or> (\<exists>n. parseInt s = JNumber n)"
  by (simp add: parseInt_def Let_def)

lemma parseInt_truthy:
  "truthy (parseInt s) \<longleftrightarrow> (\<exists>n. parseInt s = JNumber n \<and> n \<noteq> 0)"
  using parseInt_number [of s] by auto

lemma saved_contracts_append [simp]:
  "saved_contracts (xs @ ys) = saved_contracts xs @ saved_contracts ys"
  by (induction xs rule: saved_contracts.induct) simp_all

lemma start_simps [simp]: "world (start w) = w" "trace (start w) = []"
  by (simp_all add: start_def)

section \<open>Ingesting an address twice\<close>

text \<open>
  Claim C4. Outside update mode, let an address that the store does not have be ingested
  with success, and then be ingested again, the store being one where a record that
  \<^verbatim>\<open>save\<close> has taken exists afterwards. Then the first ingestion calls \<^verbatim>\<open>save\<close>
  exactly once; the second finds the address, fetches nothing, saves nothing, prints
  \<^verbatim>\<open>Already exists\<close> and returns without ending the run.
\<close>

theorem idempotent_ingestion:
  assumes noupd: "\<not> update opts"
    and law: "\<forall>c w z w'. env_save env c w = (Inr z, w') \<longrightarrow>
                fst (env_existsByAddressNetwork env (address (info c)) (network (info c)) w')
                  = Inr True"
    and fresh: "fst (env_existsByAddressNetwork env (toLowerCase address0) ''foundation''
                  (world st)) = Inr False"
    and first: "fetchAddress env address0 opts st = (Ok (), st1)"
    and second: "fetchAddress env address0 opts st1 = (r2, st2)"
  shows "length (saved_contracts (new_events st st1)) = 1
         \<and> r2 = Ok ()
         \<and> new_events st1 st2 =
             [ExistsByAddressNetwork (toLowerCase address0) ''foundation'' (Inr True),
              ConsoleLog Info (''Already exists: '' @ toLowerCase address0)]"
proof -
  let ?a = "toLowerCase address0"
  from first have "length (saved_contracts (new_events st st1)) = 1
      \<and> fst (env_existsByAddressNetwork env ?a ''foundation'' (world st1)) = Inr True"
  proof (cases rule: fetchAddress_cases)
    case exists_true
    with fresh show ?thesis by simp
  next
    case (saved xa xb t ti es bc c w z)
    from saved(7) obtain added where z: "z = Inr added"
      by (cases z) auto
    from saved(5) have "address (info c) = ?a" "network (info c) = ''foundation''"
      by (auto dest: contract_of_Inr)
    with law saved(6) z
    have "fst (env_existsByAddressNetwork env ?a ''foundation'' (world st1)) = Inr True"
      by metis
    moreover from saved(8) z have "length (saved_contracts (new_events st st1)) = 1"
      by (simp add: new_events_append)
    ultimately show ?thesis by simp
  qed simp_all
  then have one: "length (saved_contracts (new_events st st1)) = 1"
    and present: "fst (env_existsByAddressNetwork env ?a ''foundation'' (world st1)) = Inr True"
    by simp_all
  from second have "r2 = Ok () \<and> new_events st1 st2 =
             [ExistsByAddressNetwork ?a ''foundation'' (Inr True),
              ConsoleLog Info (''Already exists: '' @ ?a)]"
  proof (cases rule: fetchAddress_cases)
    case exists_true
    with noupd show ?thesis by (simp add: new_events_append)
  qed (use present in simp_all)
  with one show ?thesis by simp
qed

lemma sample_store_law:
  "\<forall>c w z w'. env_save (sample_env d l rs tx) c w = (Inr z, w') \<longrightarrow>
     fst (env_existsByAddressNetwork (sample_env d l rs tx) (address (info c))
            (network (info c)) w') = Inr True"
  by (auto simp: sample_env_def store_save_def store_exists_def split: if_splits)

lemma sample_first_ingestion:
  "fetchAddress (sample_env sample_doc sample_listing sample_rows (sample_tx ''0xaaa''))
     ''0xAAA'' sample_options (start []) =
   (Ok (),
    \<lparr>world = [''0xaaa''],
     trace =
       [ExistsByAddressNetwork ''0xaaa'' ''foundation'' (Inr False),
        HttpGet ''https://etherscan.io/address/0xaaa''
          (Inr \<lparr>status = 200, body = ''https://etherscan.io/address/0xaaa''\<rparr>),
        HttpGet ''https://api.blockchair.com/ethereum/calls?q=recipient(0xaaa),type(create)''
          (Inr \<lparr>status = 200,
                body = ''https://api.blockchair.com/ethereum/calls?q=recipient(0xaaa),type(create)''\<rparr>),
        GetTxInfo ''foundation'' ''0x01'' (Inr \<lparr>tx_address = ''0xaaa'', tx_bin = ''6060''\<rparr>),
        ConsoleLog Info ''Load address 0xaaa'',
        Save \<lparr>src = [(''Token.sol'', ''contract Token {}'')], abi = ''[]'', bin = ''6060'',
              info = \<lparr>name = ''Token'', entrypoint = ''Token.sol'',
                       compiler = ''0.4.11+commit.68ef5810'', optimise = JNumber 200,
                       network = ''foundation'', txid = ''0x01'', address = ''0xaaa'',
                       constructor = []\<rparr>\<rparr> (Inr True),
        ConsoleLog Success ''0xaaa'']\<rparr>)"
  by code_simp

theorem idempotent_ingestion_witness:
  "(\<exists>st1 st2.
      fetchAddress (sample_env sample_doc sample_listing sample_rows (sample_tx ''0xaaa''))
        ''0xAAA'' sample_options (start []) = (Ok (), st1)
      \<and> fetchAddress (sample_env sample_doc sample_listing sample_rows (sample_tx ''0xaaa''))
          ''0xAAA'' sample_options st1 = (Ok (), st2)
      \<and> length (saved_contracts (new_events (start []) st1)) = 1
      \<and> new_events st1 st2 =
          [ExistsByAddressNetwork ''0xaaa'' ''foundation'' (Inr True),
           ConsoleLog Info ''Already exists: 0xaaa''])"
proof -
  let ?env = "sample_env sample_doc sample_listing sample_rows (sample_tx ''0xaaa'')"
  obtain st1 where first: "fetchAddress ?env ''0xAAA'' sample_options (start []) = (Ok (), st1)"
    using sample_first_ingestion by blast
  obtain r2 st2 where second: "fetchAddress ?env ''0xAAA'' sample_options st1 = (r2, st2)"
    by (cases "fetchAddress ?env ''0xAAA'' sample_options st1")
  have noupd: "\<not> update sample_options"
    by (simp add: sample_options_def)
  have fresh: "fst (env_existsByAddressNetwork ?env (toLowerCase ''0xAAA'') ''foundation''
                 (world (start []))) = Inr False"
    by (simp add: sample_env_def store_exists_def)
  have lower: "toLowerCase ''0xAAA'' = ''0xaaa''"
    by code_simp
  from idempotent_ingestion [OF noupd sample_store_law fresh first second] first second
  show ?thesis
    by (auto simp: lower)
qed

section \<open>A ledger lookup that gives another address\<close>

text \<open>
  Claim C5. If, while an address is ingested, the ledger lookup returns a transaction
  whose address differs from the requested address in lower case, then the ingestion
  throws, with the failed comparison of the two addresses unless the other promise, the
  fetch of the address page, has failed with an error of its own that is reported
  instead; and \<^verbatim>\<open>save\<close> is not called.
\<close>

theorem address_mismatch_rejected:
  assumes run: "fetchAddress env address0 opts st = (r, st')"
    and lookup: "GetTxInfo n t (Inr txInfo) \<in> set (new_events st st')"
    and differs: "tx_address txInfo \<noteq> toLowerCase address0"
  shows "(\<exists>e. r = Throw e \<and>
            (e = AssertionError (tx_address txInfo @ '' == '' @ toLowerCase address0)
             \<or> (\<exists>xa. HttpGet (etherscan_address_url (toLowerCase address0)) xa
                         \<in> set (new_events st st')
                      \<and> and_then (and_then xa check_status)
                           (etherscan_info_of env (toLowerCase address0)) = Inl e)))
         \<and> (\<forall>c z. Save c z \<notin> set (new_events st st'))"
  using run
proof (cases rule: fetchAddress_cases)
  case (exists_rejected e)
  with lookup show ?thesis by (simp add: new_events_append)
next
  case exists_true
  with lookup show ?thesis by (simp add: new_events_append split: if_splits)
next
  case (query_failed xa xb eb e)
  with lookup show ?thesis by (simp add: new_events_append)
next
  case (reconcile_failed xa xb t' y e)
  from lookup reconcile_failed(5) have y: "y = Inr txInfo" and "t' = t"
    by (simp_all add: new_events_append)
  with differs have "and_then y (blockchair_info_of (toLowerCase address0) t') =
      Inl (AssertionError (tx_address txInfo @ '' == '' @ toLowerCase address0))"
    by (simp add: blockchair_info_of_def)
  with reconcile_failed show ?thesis
    by (auto simp: new_events_append)
next
  case (unresolved xa xb t' ti es bc e)
  from lookup unresolved(7) have "ti = txInfo" by (simp add: new_events_append)
  with unresolved(4) differs show ?thesis
    by (simp add: blockchair_info_of_def split: if_splits)
next
  case (saved xa xb t' ti es bc c w z)
  from lookup saved(8) have "ti = txInfo"
    by (auto simp: new_events_append split: sum.splits if_splits)
  with saved(4) differs show ?thesis
    by (simp add: blockchair_info_of_def split: if_splits)
qed

lemma sample_mismatch_run:
  "fetchAddress (sample_env sample_doc sample_listing sample_rows (sample_tx ''0xccc''))
     ''0xBBB'' sample_options (start []) =
   (Throw (AssertionError ''0xccc == 0xbbb''),
    \<lparr>world = [],
     trace =
       [ExistsByAddressNetwork ''0xbbb'' ''foundation'' (Inr False),
        HttpGet ''https://etherscan.io/address/0xbbb''
          (Inr \<lparr>status = 200, body = ''https://etherscan.io/address/0xbbb''\<rparr>),
        HttpGet ''https://api.blockchair.com/ethereum/calls?q=recipient(0xbbb),type(create)''
          (Inr \<lparr>status = 200,
                body = ''https://api.blockchair.com/ethereum/calls?q=recipient(0xbbb),type(create)''\<rparr>),
        GetTxInfo ''foundation'' ''0x01'' (Inr \<lparr>tx_address = ''0xccc'', tx_bin = ''6060''\<rparr>)]\<rparr>)"
  by code_simp

theorem address_mismatch_rejected_witness:
  "(\<exists>e. fst (fetchAddress (sample_env sample_doc sample_listing sample_rows (sample_tx ''0xccc''))
               ''0xBBB'' sample_options (start [])) = Throw e)
   \<and> (\<forall>c z. Save c z \<notin> set (new_events (start [])
          (snd (fetchAddress (sample_env sample_doc sample_listing sample_rows (sample_tx ''0xccc''))
                  ''0xBBB'' sample_options (start [])))))"
proof -
  have lookup: "GetTxInfo ''foundation'' ''0x01'' (Inr \<lparr>tx_address = ''0xccc'', tx_bin = ''6060''\<rparr>)
      \<in> set (new_events (start [])
          (snd (fetchAddress (sample_env sample_doc sample_listing sample_rows (sample_tx ''0xccc''))
                  ''0xBBB'' sample_options (start []))))"
    by (simp add: sample_mismatch_run new_events_def)
  have "toLowerCase ''0xBBB'' = ''0xbbb''"
    by code_simp
  then have differs:
    "tx_address \<lparr>tx_address = ''0xccc'', tx_bin = ''6060''\<rparr> \<noteq> toLowerCase ''0xBBB''"
    by simp
  from address_mismatch_rejected [OF prod.collapse [symmetric] lookup differs]
  show ?thesis by blast
qed

section \<open>The rows of the ledger-indexing site\<close>

text \<open>
  Claim C6. If, while an address is ingested, the query of the ledger-indexing site
  answers with status 200 and parses to a \<^verbatim>\<open>data\<close> array whose length is not 1, then
  the row-count assertion fails, the ingestion throws, and neither the ledger lookup nor
  \<^verbatim>\<open>save\<close> is called. A ledger lookup is made only after such an answer whose array
  has length 1, for the transaction hash of its one row.
\<close>

theorem row_count_checked:
  assumes run: "fetchAddress env address0 opts st = (r, st')"
  shows "(\<forall>resp rows.
            HttpGet (blockchair_calls_url (toLowerCase address0)) (Inr resp)
              \<in> set (new_events st st')
            \<and> status resp = 200 \<and> JSON_parse env (body resp) = Inr rows
            \<and> length (data rows) \<noteq> 1 \<longrightarrow>
            (\<exists>e. r = Throw e)
            \<and> txid_of env (body resp) =
                Inl (AssertionError (''Expected not more than 1 rows, received: ''
                                     @ show_nat (length (data rows))))
            \<and> (\<forall>n t y. GetTxInfo n t y \<notin> set (new_events st st'))
            \<and> (\<forall>c z. Save c z \<notin> set (new_events st st')))
       \<and> (\<forall>n t y. GetTxInfo n t y \<in> set (new_events st st') \<longrightarrow>
            (\<exists>resp rows.
               HttpGet (blockchair_calls_url (toLowerCase address0)) (Inr resp)
                 \<in> set (new_events st st')
               \<and> status resp = 200 \<and> JSON_parse env (body resp) = Inr rows
               \<and> length (data rows) = 1
               \<and> n = ''foundation'' \<and> t = transaction_hash (hd (data rows))))"
proof -
  have txid_bad: "txid_of env b =
      Inl (AssertionError (''Expected not more than 1 rows, received: ''
                           @ show_nat (length (data rows))))"
    if "JSON_parse env b = Inr rows" "length (data rows) \<noteq> 1" for b rows
    using that by (simp add: txid_of_def)
  have txid_good: "\<exists>rows. JSON_parse env b = Inr rows \<and> length (data rows) = 1
                     \<and> t = transaction_hash (hd (data rows))"
    if "txid_of env b = Inr t" for b t
    using that by (auto simp: txid_of_def split: sum.splits if_splits)
  from run show ?thesis
  proof (cases rule: fetchAddress_cases)
    case (exists_rejected e)
    then show ?thesis by (simp add: new_events_append)
  next
    case exists_true
    then show ?thesis by (simp add: new_events_append)
  next
    case (query_failed xa xb eb e)
    then show ?thesis
      by (auto simp: new_events_append txid_bad)
  next
    case (reconcile_failed xa xb t y e)
    from reconcile_failed(2) obtain resp where xb: "xb = Inr resp" "status resp = 200"
      "txid_of env (body resp) = Inr t"
      by (auto simp: checked_Inr)
    with txid_good [of "body resp" t] reconcile_failed show ?thesis
      by (auto simp: new_events_append)
  next
    case (unresolved xa xb t ti es bc e)
    from unresolved(3) obtain resp where xb: "xb = Inr resp" "status resp = 200"
      "txid_of env (body resp) = Inr t"
      by (auto simp: checked_Inr)
    with txid_good [of "body resp" t] unresolved show ?thesis
      by (auto simp: new_events_append)
  next
    case (saved xa xb t ti es bc c w z)
    from saved(3) obtain resp where xb: "xb = Inr resp" "status resp = 200"
      "txid_of env (body resp) = Inr t"
      by (auto simp: checked_Inr)
    with txid_good [of "body resp" t] saved(8) show ?thesis
      by (auto simp: new_events_append split: sum.splits if_splits)
  qed
qed

theorem row_count_checked_witness:
  "(\<exists>e. fst (fetchAddress (sample_env sample_doc sample_listing [] (sample_tx ''0xaaa''))
               ''0xAAA'' sample_options (start [])) = Throw e)
   \<and> (\<forall>n t y. GetTxInfo n t y \<notin> set (new_events (start [])
          (snd (fetchAddress (sample_env sample_doc sample_listing [] (sample_tx ''0xaaa''))
                  ''0xAAA'' sample_options (start [])))))"
proof -
  let ?env = "sample_env sample_doc sample_listing [] (sample_tx ''0xaaa'')"
  let ?resp = "\<lparr>status = 200,
                 body = ''https://api.blockchair.com/ethereum/calls?q=recipient(0xaaa),type(create)''\<rparr>"
  have "HttpGet (blockchair_calls_url (toLowerCase ''0xAAA'')) (Inr ?resp)
          \<in> set (new_events (start []) (snd (fetchAddress ?env ''0xAAA'' sample_options (start []))))"
    by code_simp
  moreover have "status ?resp = 200"
    by simp
  moreover have "JSON_parse ?env (body ?resp) = Inr \<lparr>data = []\<rparr>"
    by (simp add: sample_env_def)
  moreover have "length (data \<lparr>data = []\<rparr>) \<noteq> 1"
    by simp
  moreover have "fetchAddress ?env ''0xAAA'' sample_options (start []) =
      (fst (fetchAddress ?env ''0xAAA'' sample_options (start [])),
       snd (fetchAddress ?env ''0xAAA'' sample_options (start [])))"
    by simp
  ultimately show ?thesis
    using row_count_checked by blast
qed

section \<open>The constructor arguments of a record\<close>

text \<open>
  Claim C7, as the program has it. Let an address be ingested and its address page be
  fetched. If the markup read at the position of the constructor arguments is not empty,
  it has to start with a nonempty run of lower-case hexadecimal digits of even length
  that is ended by \<^verbatim>\<open><\<close>: then the \<^verbatim>\<open>constructor\<close> field of a saved record is that
  run. Otherwise (no such run, a run of odd length, or a run that nothing follows, as
  in the markup \<^verbatim>\<open>aa01\<close> alone) the assertion fails, the ingestion throws and
  \<^verbatim>\<open>save\<close> is not called. If there is no markup or it is empty, the field is the
  entry of the override table for the address, and the empty string without one.
\<close>

theorem constructor_arguments:
  assumes run: "fetchAddress env address0 opts st = (r, st')"
    and page: "HttpGet (etherscan_address_url (toLowerCase address0)) (Inr resp)
                 \<in> set (new_events st st')"
  shows "(\<forall>m rest.
            pre3_html (cheerio_detail env (body resp)) = Some (m @ CHR ''<'' # rest)
            \<and> m \<noteq> [] \<and> (\<forall>c\<in>set m. is_lower_hex c) \<and> even (length m) \<longrightarrow>
            (\<forall>c z. Save c z \<in> set (new_events st st') \<longrightarrow> constructor (info c) = m))
       \<and> (\<forall>h. pre3_html (cheerio_detail env (body resp)) = Some h \<and> h \<noteq> []
              \<and> \<not> (\<exists>m rest. h = m @ CHR ''<'' # rest \<and> m \<noteq> []
                       \<and> (\<forall>c\<in>set m. is_lower_hex c) \<and> even (length m)) \<longrightarrow>
            etherscan_info_of env (toLowerCase address0) (body resp) =
              Inl (AssertionError ''Contructor Arguments is not valid'')
            \<and> (\<exists>e. r = Throw e)
            \<and> (\<forall>c z. Save c z \<notin> set (new_events st st')))
       \<and> (pre3_html (cheerio_detail env (body resp)) = None
          \<or> pre3_html (cheerio_detail env (body resp)) = Some [] \<longrightarrow>
            (\<forall>c z. Save c z \<in> set (new_events st st') \<longrightarrow>
               constructor (info c) =
                 (case etherscanConstructorArguments env (toLowerCase address0) of
                    Some v \<Rightarrow> v | None \<Rightarrow> [])))"
proof (intro conjI allI impI; (elim conjE)?)
  fix m rest c z
  assume "pre3_html (cheerio_detail env (body resp)) = Some (m @ CHR ''<'' # rest)"
    "m \<noteq> []" "\<forall>c\<in>set m. is_lower_hex c" "even (length m)"
    and sv: "Save c z \<in> set (new_events st st')"
  then have "cargs_of_html (pre3_html (cheerio_detail env (body resp))) = Inr m"
    by (simp add: cargs_of_html_valid)
  with saved_cargs [OF run page sv] \<open>m \<noteq> []\<close> show "constructor (info c) = m"
    by (metis sum.inject(2))
next
  fix c z
  assume "pre3_html (cheerio_detail env (body resp)) = None
          \<or> pre3_html (cheerio_detail env (body resp)) = Some []"
    and sv: "Save c z \<in> set (new_events st st')"
  then have "cargs_of_html (pre3_html (cheerio_detail env (body resp))) = Inr []"
    by (auto simp: cargs_of_html_absent)
  with saved_cargs [OF run page sv]
  show "constructor (info c) =
          (case etherscanConstructorArguments env (toLowerCase address0) of
             Some v \<Rightarrow> v | None \<Rightarrow> [])"
    by (metis sum.inject(2))
next
  fix h
  assume h: "pre3_html (cheerio_detail env (body resp)) = Some h" "h \<noteq> []"
    "\<not> (\<exists>m rest. h = m @ CHR ''<'' # rest \<and> m \<noteq> []
           \<and> (\<forall>c\<in>set m. is_lower_hex c) \<and> even (length m))"
  then have bad: "cargs_of_html (pre3_html (cheerio_detail env (body resp))) =
      Inl (AssertionError ''Contructor Arguments is not valid'')"
    by (simp add: cargs_of_html_invalid)
  then show "etherscan_info_of env (toLowerCase address0) (body resp) =
      Inl (AssertionError ''Contructor Arguments is not valid'')"
    by (simp add: etherscan_info_of_def Let_def)
  have nosave: "\<forall>c z. Save c z \<notin> set (new_events st st')"
  proof (intro allI notI)
    fix c z assume "Save c z \<in> set (new_events st st')"
    from saved_cargs [OF run page this] bad show False by (metis sum.distinct(1))
  qed
  then show "\<And>c z. Save c z \<notin> set (new_events st st')" by blast
  from throws_without_save [OF run page nosave] show "\<exists>e. r = Throw e" .
qed

theorem constructor_arguments_witness:
  "(\<exists>c z. Save c z \<in> set (new_events (start [])
              (snd (fetchAddress (sample_env sample_doc sample_listing sample_rows (sample_tx ''0xddd''))
                      ''0xDDD'' sample_options (start []))))
          \<and> constructor (info c) = ''aa01'')
   \<and> (\<exists>e. fst (fetchAddress (sample_env (sample_doc\<lparr>pre3_html := Some ''abc<br>''\<rparr>)
                      sample_listing sample_rows (sample_tx ''0xddd''))
                 ''0xDDD'' sample_options (start [])) = Throw e)"
proof
  let ?env = "sample_env sample_doc sample_listing sample_rows (sample_tx ''0xddd'')"
  let ?resp = "\<lparr>status = 200, body = ''https://etherscan.io/address/0xddd''\<rparr>"
  let ?c = "\<lparr>src = [(''Token.sol'', ''contract Token {}'')], abi = ''[]'', bin = ''6060'',
              info = \<lparr>name = ''Token'', entrypoint = ''Token.sol'',
                       compiler = ''0.4.11+commit.68ef5810'', optimise = JNumber 200,
                       network = ''foundation'', txid = ''0x01'', address = ''0xddd'',
                       constructor = ''aa01''\<rparr>\<rparr>"
  have page: "HttpGet (etherscan_address_url (toLowerCase ''0xDDD'')) (Inr ?resp)
          \<in> set (new_events (start []) (snd (fetchAddress ?env ''0xDDD'' sample_options (start []))))"
    by code_simp
  have sv: "Save ?c (Inr True)
          \<in> set (new_events (start []) (snd (fetchAddress ?env ''0xDDD'' sample_options (start []))))"
    by code_simp
  have none: "pre3_html (cheerio_detail ?env (body ?resp)) = None"
    by (simp add: sample_env_def sample_doc_def)
  have entry: "etherscanConstructorArguments ?env (toLowerCase ''0xDDD'') = Some ''aa01''"
    by code_simp
  from constructor_arguments [OF prod.collapse [symmetric] page] none sv entry
  have "constructor (info ?c) = ''aa01''"
    by simp
  with sv show "\<exists>c z. Save c z \<in> set (new_events (start [])
              (snd (fetchAddress ?env ''0xDDD'' sample_options (start []))))
          \<and> constructor (info c) = ''aa01''"
    by blast
next
  let ?env = "sample_env (sample_doc\<lparr>pre3_html := Some ''abc<br>''\<rparr>)
                sample_listing sample_rows (sample_tx ''0xddd'')"
  let ?resp = "\<lparr>status = 200, body = ''https://etherscan.io/address/0xddd''\<rparr>"
  have page: "HttpGet (etherscan_address_url (toLowerCase ''0xDDD'')) (Inr ?resp)
          \<in> set (new_events (start []) (snd (fetchAddress ?env ''0xDDD'' sample_options (start []))))"
    by code_simp
  have html: "pre3_html (cheerio_detail ?env (body ?resp)) = Some ''abc<br>''"
    by (simp add: sample_env_def sample_doc_def)
  have matched: "match_cargs ''abc<br>'' = Some ''abc''"
    by code_simp
  have odd: "\<not> (\<exists>m rest. ''abc<br>'' = m @ CHR ''<'' # rest \<and> m \<noteq> []
                  \<and> (\<forall>c\<in>set m. is_lower_hex c) \<and> even (length m))"
  proof
    assume "\<exists>m rest. ''abc<br>'' = m @ CHR ''<'' # rest \<and> m \<noteq> []
                  \<and> (\<forall>c\<in>set m. is_lower_hex c) \<and> even (length m)"
    then obtain m rest where m: "''abc<br>'' = m @ CHR ''<'' # rest" "m \<noteq> []"
      "\<forall>c\<in>set m. is_lower_hex c" and ev: "even (length m)"
      by blast
    from m have "match_cargs ''abc<br>'' = Some m"
      unfolding match_cargs_Some by blast
    with matched have "m = ''abc''" by simp
    with ev show False by simp
  qed
  from constructor_arguments [OF prod.collapse [symmetric] page] html odd
  show "\<exists>e. fst (fetchAddress ?env ''0xDDD'' sample_options (start [])) = Throw e"
    by simp
qed

theorem hex_without_markup_is_refused:
  "''aa01'' \<noteq> [] \<and> even (length ''aa01'') \<and> list_all is_lower_hex ''aa01''
   \<and> fst (fetchAddress
            (sample_env (sample_doc\<lparr>pre3_html := Some ''aa01''\<rparr>)
               sample_listing sample_rows (sample_tx ''0xaaa''))
            ''0xAAA'' sample_options (start [])) =
         Throw (AssertionError ''Contructor Arguments is not valid'')
   \<and> saved_contracts (trace (snd (fetchAddress
            (sample_env (sample_doc\<lparr>pre3_html := Some ''aa01''\<rparr>)
               sample_listing sample_rows (sample_tx ''0xaaa''))
            ''0xAAA'' sample_options (start [])))) = []"
  by code_simp

section \<open>The optimise field of a record\<close>

text \<open>
  Claim C8, as the program has it. The \<^verbatim>\<open>optimise\<close> field of a saved record is the
  boolean false when the text of the optimization flag is not \<^verbatim>\<open>Yes\<close>, and otherwise
  the number that \<^verbatim>\<open>parseInt\<close> makes of the run count (\<^verbatim>\<open>NaN\<close> included): a value
  that is truthy exactly when the flag is \<^verbatim>\<open>Yes\<close> and the run count is a number other
  than zero. It is not the boolean true then, as the run below shows.
\<close>

theorem optimise_field:
  assumes run: "fetchAddress env address0 opts st = (r, st')"
    and page: "HttpGet (etherscan_address_url (toLowerCase address0)) (Inr resp)
                 \<in> set (new_events st st')"
    and sv: "Save c z \<in> set (new_events st st')"
  shows "optimise (info c) =
           (if trim (td_optimization (cheerio_detail env (body resp))) = ''Yes''
            then parseInt (trim (td_runs (cheerio_detail env (body resp))))
            else JBool False)
         \<and> (truthy (optimise (info c)) \<longleftrightarrow>
              trim (td_optimization (cheerio_detail env (body resp))) = ''Yes''
              \<and> (\<exists>n. parseInt (trim (td_runs (cheerio_detail env (body resp)))) = JNumber n
                       \<and> n \<noteq> 0))"
proof -
  let ?a = "toLowerCase address0"
  from run sv obtain res es bc v where
    res: "HttpGet (etherscan_address_url ?a) (Inr res) \<in> set (new_events st st')"
    and es: "etherscan_info_of env ?a (body res) = Inr es"
    and c: "c = make_contract ?a es bc v"
    by (rule saved_record)
  from one_page [OF run res page] have "res = resp" by simp
  with es have "es_optimise es =
           (if trim (td_optimization (cheerio_detail env (body resp))) = ''Yes''
            then parseInt (trim (td_runs (cheerio_detail env (body resp))))
            else JBool False)"
    by (cases "cargs_of_html (pre3_html (cheerio_detail env (body resp)))")
      (auto simp: etherscan_info_of_def Let_def)
  with c show ?thesis
    by (simp add: parseInt_truthy)
qed

theorem optimise_field_witness:
  "\<exists>c z. Save c z \<in> set (new_events (start [])
              (snd (fetchAddress (sample_env sample_doc sample_listing sample_rows (sample_tx ''0xaaa''))
                      ''0xAAA'' sample_options (start []))))
          \<and> optimise (info c) = JNumber 200 \<and> truthy (optimise (info c))"
proof -
  let ?env = "sample_env sample_doc sample_listing sample_rows (sample_tx ''0xaaa'')"
  let ?resp = "\<lparr>status = 200, body = ''https://etherscan.io/address/0xaaa''\<rparr>"
  let ?c = "\<lparr>src = [(''Token.sol'', ''contract Token {}'')], abi = ''[]'', bin = ''6060'',
              info = \<lparr>name = ''Token'', entrypoint = ''Token.sol'',
                       compiler = ''0.4.11+commit.68ef5810'', optimise = JNumber 200,
                       network = ''foundation'', txid = ''0x01'', address = ''0xaaa'',
                       constructor = []\<rparr>\<rparr>"
  have page: "HttpGet (etherscan_address_url (toLowerCase ''0xAAA'')) (Inr ?resp)
          \<in> set (new_events (start []) (snd (fetchAddress ?env ''0xAAA'' sample_options (start []))))"
    by code_simp
  have sv: "Save ?c (Inr True)
          \<in> set (new_events (start []) (snd (fetchAddress ?env ''0xAAA'' sample_options (start []))))"
    by code_simp
  have doc: "cheerio_detail ?env b = sample_doc" for b
    by (simp add: sample_env_def)
  have flag: "trim (td_optimization sample_doc) = ''Yes''"
    by code_simp
  have runs: "parseInt (trim (td_runs sample_doc)) = JNumber 200"
    by code_simp
  from optimise_field [OF prod.collapse [symmetric] page sv]
  have "optimise (info ?c) = JNumber 200 \<and> truthy (optimise (info ?c))"
    by (simp add: doc flag runs)
  with sv show ?thesis by blast
qed

theorem optimise_is_a_number:
  "trim (td_optimization sample_doc) = ''Yes''
   \<and> parseInt (trim (td_runs sample_doc)) = JNumber 200
   \<and> map (\<lambda>c. optimise (info c))
        (saved_contracts (trace (snd (fetchAddress
           (sample_env sample_doc sample_listing sample_rows (sample_tx ''0xaaa''))
           ''0xAAA'' sample_options (start []))))) = [JNumber 200]
   \<and> JNumber 200 \<noteq> JBool True"
  by code_simp

section \<open>A compiler identifier that does not end in a letter or digit\<close>

text \<open>
  Claim C10. Let an address be ingested, both promises resolve (the line
  \<^verbatim>\<open>Load address\<close> is printed), and the compiler identifier read from the address page
  be empty or end in a character outside \<^verbatim>\<open>[a-z0-9]\<close>. Then, whatever the version index
  and the alias table hold, the ingestion throws the \<^verbatim>\<open>TypeError\<close> of indexing the
  \<^verbatim>\<open>null\<close> of the failed match, and \<^verbatim>\<open>save\<close> is not called.
\<close>

theorem compiler_without_trailing_alnum:
  assumes run: "fetchAddress env address0 opts st = (r, st')"
    and page: "HttpGet (etherscan_address_url (toLowerCase address0)) (Inr resp)
                 \<in> set (new_events st st')"
    and reached: "ConsoleLog Info (''Load address '' @ toLowerCase address0)
                 \<in> set (new_events st st')"
    and compiler: "trim (td_compiler (cheerio_detail env (body resp))) = []
                 \<or> \<not> is_lower_alnum (last (trim (td_compiler (cheerio_detail env (body resp)))))"
  shows "r = Throw (TypeError ''Cannot read property 1 of null'')
         \<and> (\<forall>c z. Save c z \<notin> set (new_events st st'))"
proof -
  let ?a = "toLowerCase address0"
  have fails: "contract_of vs al ?a es bc = Inl (TypeError ''Cannot read property 1 of null'')"
    if "and_then (and_then xa check_status) (etherscan_info_of env ?a) = Inr es"
      "HttpGet (etherscan_address_url ?a) xa \<in> set (new_events st st')" for xa es bc vs al
  proof -
    from one_page [OF run that(2) page] have xa: "xa = Inr resp" .
    from that(1) obtain res where "xa = Inr res" "etherscan_info_of env ?a (body res) = Inr es"
      by (auto simp: checked_Inr)
    with xa have "etherscan_info_of env ?a (body resp) = Inr es"
      by simp
    then have "es_compiler es = trim (td_compiler (cheerio_detail env (body resp)))"
      by (cases "cargs_of_html (pre3_html (cheerio_detail env (body resp)))")
        (auto simp: etherscan_info_of_def Let_def)
    with compiler have "match_trailing_alnum (es_compiler es) = None"
      by (simp add: match_trailing_alnum_None)
    then show ?thesis by (simp add: contract_of_def)
  qed
  from run show ?thesis
  proof (cases rule: fetchAddress_cases)
    case (exists_rejected e)
    with reached show ?thesis by (simp add: new_events_append)
  next
    case exists_true
    with reached show ?thesis by (simp add: new_events_append split: if_splits)
  next
    case (query_failed xa xb eb e)
    with reached show ?thesis by (simp add: new_events_append)
  next
    case (reconcile_failed xa xb t y e)
    with reached show ?thesis by (simp add: new_events_append)
  next
    case (unresolved xa xb t ti es bc e)
    from unresolved(7) have "HttpGet (etherscan_address_url ?a) xa \<in> set (new_events st st')"
      by (simp add: new_events_append)
    from fails [OF unresolved(2) this] unresolved(5,6,7) show ?thesis
      by (simp add: new_events_append)
  next
    case (saved xa xb t ti es bc c w z)
    from saved(8) have "HttpGet (etherscan_address_url ?a) xa \<in> set (new_events st st')"
      by (simp add: new_events_append)
    from fails [OF saved(2) this] saved(5) show ?thesis by simp
  qed
qed

theorem compiler_without_trailing_alnum_witness:
  "fst (fetchAddress
         (sample_env (sample_doc\<lparr>td_compiler := ''v0.4.11+commit.68ef581F''\<rparr>)
            sample_listing sample_rows (sample_tx ''0xaaa''))
         ''0xAAA'' sample_options (start [])) = Throw (TypeError ''Cannot read property 1 of null'')"
proof -
  let ?env = "sample_env (sample_doc\<lparr>td_compiler := ''v0.4.11+commit.68ef581F''\<rparr>)
                sample_listing sample_rows (sample_tx ''0xaaa'')"
  let ?resp = "\<lparr>status = 200, body = ''https://etherscan.io/address/0xaaa''\<rparr>"
  have page: "HttpGet (etherscan_address_url (toLowerCase ''0xAAA'')) (Inr ?resp)
          \<in> set (new_events (start []) (snd (fetchAddress ?env ''0xAAA'' sample_options (start []))))"
    by code_simp
  have reached: "ConsoleLog Info (''Load address '' @ toLowerCase ''0xAAA'')
          \<in> set (new_events (start []) (snd (fetchAddress ?env ''0xAAA'' sample_options (start []))))"
    by code_simp
  have "\<not> is_lower_alnum (last (trim (td_compiler (cheerio_detail ?env (body ?resp)))))"
    by code_simp
  then have compiler: "trim (td_compiler (cheerio_detail ?env (body ?resp))) = []
      \<or> \<not> is_lower_alnum (last (trim (td_compiler (cheerio_detail ?env (body ?resp)))))"
    by simp
  from compiler_without_trailing_alnum [OF prod.collapse [symmetric] page reached compiler]
  show ?thesis by simp
qed

section \<open>The bound on the iterations\<close>

text \<open>
  The bound on the iterations of \<^verbatim>\<open>fetchPages\<close> only cuts runs short: a run that
  ends within the bound ends the same way under every larger bound.
\<close>

lemma fetchPages_more_fuel:
  assumes "fetchPages fuel env page up opts st = (r, st')" and "r \<noteq> Running"
  shows "fetchPages (fuel + k) env page up opts st = (r, st')"
  using assms
proof (induction fuel arbitrary: page st)
  case 0
  then show ?case by simp
next
  case (Suc fuel)
  obtain r1 st1 where page: "fetchPage env page opts st = (r1, st1)"
    by (cases "fetchPage env page opts st")
  show ?case
  proof (cases r1)
    case (Ok pages)
    show ?thesis
    proof (cases "page \<ge> (case up of Latest \<Rightarrow> digits_to_nat pages | Upto n \<Rightarrow> n)")
      case True
      with Suc.prems page Ok show ?thesis
        by (simp add: await_def)
    next
      case False
      with Suc.prems page Ok have "fetchPages fuel env (page + 1) up opts st1 = (r, st')"
        by (simp add: await_def)
      from Suc.IH [OF this Suc.prems(2)] False page Ok show ?thesis
        by (simp add: await_def)
    qed
  qed (use Suc.prems page in \<open>auto simp: await_def\<close>)
qed

lemma await_same_result:
  assumes "await m k st = (r, s')"
    and "\<And>x s1. m st = (Ok x, s1) \<Longrightarrow> k x s1 = (r, s') \<Longrightarrow> k' x s1 = (r, s')"
  shows "await m k' st = (r, s')"
  using assms by (cases "m st") (auto simp: await_def split: outcome.splits)

lemma main_more_fuel:
  assumes run: "main fuel env args s = (r, s')" and "r \<noteq> Running"
  shows "main (fuel + k) env args s = (r, s')"
  using run unfolding main_def Let_def
proof (rule await_same_result)
  fix versions s1
  assume "await (case arg_address args of
                   None \<Rightarrow> return ()
                 | Some a \<Rightarrow>
                     if a = [] then return ()
                     else fetchAddress env a \<lparr>soljsonVersions = versions, update = arg_update args\<rparr>)
            (\<lambda>_. await (case arg_page args of
                   None \<Rightarrow> return ()
                 | Some p \<Rightarrow>
                     if p = 0 then return ()
                     else await (fetchPage env p
                                   \<lparr>soljsonVersions = versions, update = arg_update args\<rparr>)
                            (\<lambda>_. return ()))
              (\<lambda>_. case arg_pages args of
                 None \<Rightarrow> return ()
               | Some (down, up) \<Rightarrow>
                   fetchPages fuel env down up
                     \<lparr>soljsonVersions = versions, update = arg_update args\<rparr>)) s1 = (r, s')"
  then show "await (case arg_address args of
                   None \<Rightarrow> return ()
                 | Some a \<Rightarrow>
                     if a = [] then return ()
                     else fetchAddress env a \<lparr>soljsonVersions = versions, update = arg_update args\<rparr>)
            (\<lambda>_. await (case arg_page args of
                   None \<Rightarrow> return ()
                 | Some p \<Rightarrow>
                     if p = 0 then return ()
                     else await (fetchPage env p
                                   \<lparr>soljsonVersions = versions, update = arg_update args\<rparr>)
                            (\<lambda>_. return ()))
              (\<lambda>_. case arg_pages args of
                 None \<Rightarrow> return ()
               | Some (down, up) \<Rightarrow>
                   fetchPages (fuel + k) env down up
                     \<lparr>soljsonVersions = versions, update = arg_update args\<rparr>)) s1 = (r, s')"
  proof (rule await_same_result)
    fix u s2
    assume "await (case arg_page args of
                   None \<Rightarrow> return ()
                 | Some p \<Rightarrow>
                     if p = 0 then return ()
                     else await (fetchPage env p
                                   \<lparr>soljsonVersions = versions, update = arg_update args\<rparr>)
                            (\<lambda>_. return ()))
              (\<lambda>_. case arg_pages args of
                 None \<Rightarrow> return ()
               | Some (down, up) \<Rightarrow>
                   fetchPages fuel env down up
                     \<lparr>soljsonVersions = versions, update = arg_update args\<rparr>) s2 = (r, s')"
    then show "await (case arg_page args of
                   None \<Rightarrow> return ()
                 | Some p \<Rightarrow>
                     if p = 0 then return ()
                     else await (fetchPage env p
                                   \<lparr>soljsonVersions = versions, update = arg_update args\<rparr>)
                            (\<lambda>_. return ()))
              (\<lambda>_. case arg_pages args of
                 None \<Rightarrow> return ()
               | Some (down, up) \<Rightarrow>
                   fetchPages (fuel + k) env down up
                     \<lparr>soljsonVersions = versions, update = arg_update args\<rparr>) s2 = (r, s')"
    proof (rule await_same_result)
      fix v s3
      assume "(case arg_pages args of
                 None \<Rightarrow> return ()
               | Some (down, up) \<Rightarrow>
                   fetchPages fuel env down up
                     \<lparr>soljsonVersions = versions, update = arg_update args\<rparr>) s3 = (r, s')"
      with \<open>r \<noteq> Running\<close>
      show "(case arg_pages args of
                 None \<Rightarrow> return ()
               | Some (down, up) \<Rightarrow>
                   fetchPages (fuel + k) env down up
                     \<lparr>soljsonVersions = versions, update = arg_update args\<rparr>) s3 = (r, s')"
        by (auto simp: fetchPages_more_fuel split: option.splits)
    qed
  qed
qed

lemma program_more_fuel:
  assumes "program fuel env args w = (r, st)" and "r \<noteq> Running"
  shows "program (fuel + k) env args w = (r, st)"
proof -
  obtain r1 s1 where m: "main fuel env args \<lparr>world = w, trace = []\<rparr> = (r1, s1)"
    by (cases "main fuel env args \<lparr>world = w, trace = []\<rparr>")
  with assms have "r1 \<noteq> Running"
    by (auto simp: program_def)
  from main_more_fuel [OF m this] m assms(1) show ?thesis
    by (simp add: program_def)
qed

section \<open>Stopping at an address that is already stored\<close>

lemma calm_simps [simp]:
  "calm []" "calm (e # evs) \<longleftrightarrow> \<not> found_present e \<and> calm evs"
  "calm (xs @ ys) \<longleftrightarrow> calm xs \<and> calm ys"
  by (auto simp: calm_def)

lemma halted_append: "calm xs \<Longrightarrow> halted ys \<Longrightarrow> halted (xs @ ys)"
  unfolding halted_def
proof -
  assume c: "calm xs"
    and "\<exists>pre p. ys = pre @ [p, ConsoleLog Info ''Existed contract is reached'', ProcessExit 0]
           \<and> found_present p \<and> calm pre"
  then obtain pre p where
    "ys = pre @ [p, ConsoleLog Info ''Existed contract is reached'', ProcessExit 0]"
    "found_present p" "calm pre" by blast
  with c have "xs @ ys = (xs @ pre) @ [p, ConsoleLog Info ''Existed contract is reached'', ProcessExit 0]
      \<and> found_present p \<and> calm (xs @ pre)"
    by simp
  then show "\<exists>pre p. xs @ ys = pre @ [p, ConsoleLog Info ''Existed contract is reached'', ProcessExit 0]
           \<and> found_present p \<and> calm pre"
    by blast
qed

lemma halted_present:
  "found_present p \<Longrightarrow> calm pre \<Longrightarrow>
   halted (pre @ [p, ConsoleLog Info ''Existed contract is reached'', ProcessExit 0])"
  unfolding halted_def by blast

lemma stops_on_presentI:
  assumes "\<And>st r st'. m st = (r, st') \<Longrightarrow>
      \<exists>evs. trace st' = trace st @ evs
        \<and> (case r of Exit c \<Rightarrow> c = 0 \<and> halted evs | _ \<Rightarrow> calm evs)"
  shows "stops_on_present m"
  using assms unfolding stops_on_present_def by blast

lemma stops_on_presentD:
  assumes "stops_on_present m" "m st = (r, st')"
  obtains evs where "trace st' = trace st @ evs"
    "case r of Exit c \<Rightarrow> c = 0 \<and> halted evs | _ \<Rightarrow> calm evs"
  using assms unfolding stops_on_present_def by blast

lemma stops_return: "stops_on_present (return x)"
  by (rule stops_on_presentI) (auto simp: return_def)

lemma stops_throw: "stops_on_present (throw e)"
  by (rule stops_on_presentI) (auto simp: throw_def)

lemma stops_lift: "stops_on_present (lift x)"
  by (rule stops_on_presentI) (cases x; auto simp: lift_eq)

lemma stops_console_log: "stops_on_present (console_log s m)"
  by (rule stops_on_presentI) (auto simp: console_log_eq)

lemma stops_running: "stops_on_present (\<lambda>st. (Running, st))"
  by (rule stops_on_presentI) auto

lemma stops_await:
  assumes m: "stops_on_present m" and k: "\<And>x. stops_on_present (k x)"
  shows "stops_on_present (await m k)"
proof (rule stops_on_presentI)
  fix st r st'
  assume run: "await m k st = (r, st')"
  obtain r1 st1 where m1: "m st = (r1, st1)" by (cases "m st")
  from m m1 obtain e1 where e1: "trace st1 = trace st @ e1"
    "case r1 of Exit c \<Rightarrow> c = 0 \<and> halted e1 | _ \<Rightarrow> calm e1"
    by (rule stops_on_presentD)
  show "\<exists>evs. trace st' = trace st @ evs
        \<and> (case r of Exit c \<Rightarrow> c = 0 \<and> halted evs | _ \<Rightarrow> calm evs)"
  proof (cases r1)
    case (Ok x)
    with run m1 have kx: "k x st1 = (r, st')" by (simp add: await_def)
    from k kx obtain e2 where e2: "trace st' = trace st1 @ e2"
      "case r of Exit c \<Rightarrow> c = 0 \<and> halted e2 | _ \<Rightarrow> calm e2"
      by (rule stops_on_presentD)
    from Ok e1 have c1: "calm e1" by simp
    from e1 e2 have "trace st' = trace st @ (e1 @ e2)" by simp
    moreover from c1 e2(2)
    have "case r of Exit c \<Rightarrow> c = 0 \<and> halted (e1 @ e2) | _ \<Rightarrow> calm (e1 @ e2)"
      by (cases r) (simp_all add: halted_append)
    ultimately show ?thesis by blast
  next
    case (Throw e)
    with run m1 e1 show ?thesis by (auto simp: await_def)
  next
    case (Exit c)
    with run m1 e1 show ?thesis by (auto simp: await_def)
  next
    case Running
    with run m1 e1 show ?thesis by (auto simp: await_def)
  qed
qed

lemma stops_for_each:
  assumes "\<And>x. stops_on_present (f x)"
  shows "stops_on_present (for_each f xs)"
  by (induction xs) (simp_all add: stops_return stops_await assms)

lemma stops_fetchText: "stops_on_present (fetchText env url key)"
proof (rule stops_on_presentI)
  fix st r st'
  assume "fetchText env url key st = (r, st')"
  then have "await (fetchText env url key) return st = (r, st')"
    by (cases r) (simp_all add: await_def return_def)
  then show "\<exists>evs. trace st' = trace st @ evs
        \<and> (case r of Exit c \<Rightarrow> c = 0 \<and> halted evs | _ \<Rightarrow> calm evs)"
    by (auto simp: await_fetchText return_def split: prod.splits sum.splits)
qed

lemma stops_fetchAddress:
  assumes upd: "update opts"
  shows "stops_on_present (fetchAddress env address0 opts)"
proof (rule stops_on_presentI)
  fix st r st'
  assume "fetchAddress env address0 opts st = (r, st')"
  then show "\<exists>evs. trace st' = trace st @ evs
        \<and> (case r of Exit c \<Rightarrow> c = 0 \<and> halted evs | _ \<Rightarrow> calm evs)"
  proof (cases rule: fetchAddress_cases)
    case (exists_rejected e)
    then show ?thesis by simp
  next
    case exists_true
    with upd halted_present [of "ExistsByAddressNetwork (toLowerCase address0) ''foundation'' (Inr True)" "[]"]
    show ?thesis by simp
  next
    case (query_failed xa xb eb e)
    then show ?thesis by simp
  next
    case (reconcile_failed xa xb t y e)
    then show ?thesis by simp
  next
    case (unresolved xa xb t ti es bc e)
    then show ?thesis by simp
  next
    case (saved xa xb t ti es bc c w z)
    show ?thesis
    proof (cases z)
      case (Inl e)
      with saved show ?thesis by simp
    next
      case (Inr added)
      show ?thesis
      proof (cases added)
        case True
        with Inr saved show ?thesis by simp
      next
        case False
        let ?pre = "[ExistsByAddressNetwork (toLowerCase address0) ''foundation'' (Inr False),
          HttpGet (etherscan_address_url (toLowerCase address0)) xa,
          HttpGet (blockchair_calls_url (toLowerCase address0)) xb,
          GetTxInfo ''foundation'' t (Inr ti),
          ConsoleLog Info (''Load address '' @ toLowerCase address0)]"
        have "halted (?pre @ [Save c (Inr False), ConsoleLog Info ''Existed contract is reached'',
                ProcessExit 0])"
          by (rule halted_present) simp_all
        with False Inr saved upd show ?thesis by simp
      qed
    qed
  qed
qed

lemma stops_fetchPage:
  "update opts \<Longrightarrow> stops_on_present (fetchPage env page opts)"
  unfolding fetchPage_def Let_def
  by (intro stops_await stops_fetchText stops_console_log stops_for_each stops_fetchAddress
      stops_lift)

lemma stops_fetchPages:
  "update opts \<Longrightarrow> stops_on_present (fetchPages fuel env page up opts)"
proof (induction fuel arbitrary: page)
  case 0
  show ?case by (simp add: stops_running)
next
  case (Suc fuel)
  show ?case
    unfolding fetchPages.simps
    by (intro stops_await stops_fetchPage Suc.prems)
      (simp add: stops_return Suc.IH [OF Suc.prems])
qed

lemma stops_soljsonVersionsLoad: "stops_on_present (soljsonVersionsLoad env)"
  unfolding soljsonVersionsLoad_def
  by (intro stops_await stops_fetchText stops_return)

lemma stops_main:
  assumes "arg_update args"
  shows "stops_on_present (main fuel env args)"
proof -
  have opts: "update \<lparr>soljsonVersions = vs, update = arg_update args\<rparr>" for vs
    using assms by simp
  show ?thesis
    unfolding main_def Let_def
    apply (intro stops_await stops_soljsonVersionsLoad)
    subgoal by (simp add: stops_return stops_fetchAddress assms split: option.splits)
    subgoal
      by (auto simp: stops_return assms split: option.splits
          intro!: stops_await stops_fetchPage stops_return)
    subgoal by (simp add: stops_return stops_fetchPages assms split: option.splits prod.splits)
    done
qed

lemma halted_index:
  assumes h: "halted evs" and i: "i < length evs" and f: "found_present (evs ! i)"
  shows "drop (Suc i) evs = [ConsoleLog Info ''Existed contract is reached'', ProcessExit 0]"
proof -
  from h obtain pre p where
    evs: "evs = pre @ [p, ConsoleLog Info ''Existed contract is reached'', ProcessExit 0]"
    and "found_present p" and pre: "calm pre"
    unfolding halted_def by blast
  have "i = length pre"
  proof (rule ccontr)
    assume ne: "i \<noteq> length pre"
    show False
    proof (cases "i < length pre")
      case True
      with evs have "evs ! i = pre ! i" by (simp add: nth_append)
      with True pre f show False by (auto simp: calm_def)
    next
      case False
      with ne i evs have "i = Suc (length pre) \<or> i = Suc (Suc (length pre))"
        by auto
      with evs f show False
        by (auto simp: nth_append)
    qed
  qed
  with evs show ?thesis by simp
qed

lemma calm_index: "calm evs \<Longrightarrow> i < length evs \<Longrightarrow> \<not> found_present (evs ! i)"
  by (auto simp: calm_def)

text \<open>
  Claim C3. In update mode, a call of the store that finds the address already there
  (the existence check answering true, or \<^verbatim>\<open>save\<close> answering false) is followed in the
  trace of the whole run by the message of \<^verbatim>\<open>onExistsUpdate\<close> and the exit, and by
  nothing else: no further address, page, fetch or store call; and the run ends with
  status 0.
\<close>

theorem update_early_stop:
  assumes upd: "arg_update args"
    and run: "program fuel env args w = (r, st)"
    and i: "i < length (trace st)"
    and found: "found_present (trace st ! i)"
  shows "r = Exit 0
         \<and> drop (Suc i) (trace st) =
             [ConsoleLog Info ''Existed contract is reached'', ProcessExit 0]"
proof -
  obtain r1 st1 where m: "main fuel env args (start w) = (r1, st1)"
    by (cases "main fuel env args (start w)")
  from stops_main [OF upd] m obtain evs where
    evs: "trace st1 = trace (start w) @ evs"
    "case r1 of Exit c \<Rightarrow> c = 0 \<and> halted evs | _ \<Rightarrow> calm evs"
    by (rule stops_on_presentD)
  from evs(1) have tr: "trace st1 = evs" by simp
  from m have m': "main fuel env args \<lparr>world = w, trace = []\<rparr> = (r1, st1)"
    by (simp add: start_def)
  show ?thesis
  proof (cases r1)
    case (Ok u)
    with run m' have "st = st1" by (simp add: program_def)
    with Ok evs(2) tr i found calm_index show ?thesis by fastforce
  next
    case (Throw e)
    with run m' have "trace st = trace st1 @ [ConsoleError e, ProcessExit 1]"
      by (auto simp: program_def await_def console_error_def process_exit_def emit_def)
    moreover from Throw evs(2) tr have "calm (trace st1 @ [ConsoleError e, ProcessExit 1])"
      by simp
    ultimately show ?thesis using i found calm_index by fastforce
  next
    case (Exit c)
    with run m' have "st = st1" "r = Exit c" by (simp_all add: program_def)
    with Exit evs(2) tr i found halted_index show ?thesis by fastforce
  next
    case Running
    with run m' have "st = st1" by (simp add: program_def)
    with Running evs(2) tr i found calm_index show ?thesis by fastforce
  qed
qed

theorem update_early_stop_witness:
  "fst (program 3
         (sample_env sample_doc
            \<lparr>row_links = [''0xAAA'', ''0xBBB'', ''0xCCC'', ''0xDDD'', ''0xEEE''],
             doc_text = ''Page 1 of 1''\<rparr> sample_rows (sample_tx ''0xaaa''))
         \<lparr>arg_address = None, arg_page = None, arg_pages = Some (1, Latest), arg_update = True\<rparr>
         [''0xbbb'']) = Exit 0
   \<and> drop 10 (trace (snd (program 3
         (sample_env sample_doc
            \<lparr>row_links = [''0xAAA'', ''0xBBB'', ''0xCCC'', ''0xDDD'', ''0xEEE''],
             doc_text = ''Page 1 of 1''\<rparr> sample_rows (sample_tx ''0xaaa''))
         \<lparr>arg_address = None, arg_page = None, arg_pages = Some (1, Latest), arg_update = True\<rparr>
         [''0xbbb'']))) =
       [ExistsByAddressNetwork ''0xbbb'' ''foundation'' (Inr True),
        ConsoleLog Info ''Existed contract is reached'', ProcessExit 0]"
proof -
  let ?env = "sample_env sample_doc
            \<lparr>row_links = [''0xAAA'', ''0xBBB'', ''0xCCC'', ''0xDDD'', ''0xEEE''],
             doc_text = ''Page 1 of 1''\<rparr> sample_rows (sample_tx ''0xaaa'')"
  let ?args = "\<lparr>arg_address = None, arg_page = None, arg_pages = Some (1, Latest),
                 arg_update = True\<rparr>"
  let ?st = "snd (program 3 ?env ?args [''0xbbb''])"
  have upd: "arg_update ?args" by simp
  have i: "10 < length (trace ?st)" by code_simp
  have at: "trace ?st ! 10 = ExistsByAddressNetwork ''0xbbb'' ''foundation'' (Inr True)"
    by code_simp
  then have found: "found_present (trace ?st ! 10)" by simp
  from update_early_stop [OF upd prod.collapse [symmetric] i found]
  have "fst (program 3 ?env ?args [''0xbbb'']) = Exit 0"
    and "drop 11 (trace ?st) = [ConsoleLog Info ''Existed contract is reached'', ProcessExit 0]"
    by simp_all
  moreover from i have "drop 10 (trace ?st) = trace ?st ! 10 # drop 11 (trace ?st)"
    using Cons_nth_drop_Suc [of 10 "trace ?st"] by simp
  ultimately show ?thesis using at by simp
qed

section \<open>Crawling up to the latest page\<close>








lemma not_listing_simps [simp]:
  "not_listing (HttpGet url x) \<longleftrightarrow> \<not> is_listing_url url"
  "not_listing (ExistsByAddressNetwork a n b)"
  "not_listing (Save c z)"
  "not_listing (GetTxInfo n t y)"
  "not_listing (ConsoleLog s m)"
  "not_listing (ConsoleError e)"
  "not_listing (ProcessExit k)"
  by (simp_all add: not_listing_def)

lemma address_urls_not_listing [simp]:
  "\<not> is_listing_url (etherscan_address_url a)"
  "\<not> is_listing_url (blockchair_calls_url a)"
  by (simp_all add: is_listing_url_def listing_url_def etherscan_address_url_def
      blockchair_calls_url_def)

lemma page_url_listing [simp]: "is_listing_url (etherscan_page_url p)"
  by (simp add: is_listing_url_def etherscan_page_url_def)


lemma visits_append [simp]: "visits env (xs @ ys) = visits env xs @ visits env ys"
  by (induction env xs rule: visits.induct) simp_all














end
